theory Spec2Isabelle
  imports Complex_Main "HOL-Library.Sublist" "HOL-Library.Multiset" "HOL-Library.Log_Nat"
begin

section \<open>Data model\<close>

text \<open>
  The rows the pages read from the data store, with the columns of the migration
  (\<^verbatim>\<open>supabase/migrations\<close>): \<^verbatim>\<open>public.reviews\<close> and \<^verbatim>\<open>public.books\<close>. Identifiers are
  UUID strings, \<^verbatim>\<open>added_by\<close> is nullable, timestamps arrive as the strings of the JSON
  answer. The column \<^verbatim>\<open>id\<close> is written \<open>r_id\<close> for a review and \<open>b_id\<close> for a book,
  since \<open>id\<close> is the identity function of HOL.

  Strings are lists of characters and \<open>length\<close> counts them, as \<^verbatim>\<open>.length\<close> counts the
  code units of a JavaScript string; a character is a code unit below 256.

  The columns \<^verbatim>\<open>rating\<close> and \<^verbatim>\<open>published_year\<close> are \<^verbatim>\<open>INTEGER\<close>, here \<open>int\<close>. A
  JavaScript number is the rational it denotes; the arithmetic on numbers rounds as
  IEEE 754 does (next section).
\<close>

record review =
  r_id :: string
  book_id :: string
  user_id :: string
  rating :: int
  review_text :: string
  created_at :: string

record book =
  b_id :: string
  title :: string
  author :: string
  description :: string
  genre :: string
  published_year :: int
  added_by :: "string option"
  created_at :: string
  updated_at :: string

text \<open>
  \<^verbatim>\<open>{ ...book, averageRating: avgRating, reviewCount: bookReviews.length }\<close>: the book's
  own fields, extended by the two derived ones.
\<close>

record bookWithRatings = book +
  averageRating :: rat
  reviewCount :: nat


section \<open>JavaScript numbers\<close>

text \<open>
  A Number is an IEEE 754 double: a sign, a significand of 53 bits and a binary
  exponent. \<open>exponent x\<close> is the exponent of a positive rational, the \<open>e\<close> with
  \<open>2\<^sup>e \<le> x < 2\<^sup>e\<^sup>+\<^sup>1\<close>, read off the length in bits of the integer part of \<open>x\<close> (or of
  \<open>1 / x\<close> below 1).
\<close>

definition exponent :: "rat \<Rightarrow> int" where
  "exponent x = (if 1 \<le> x then bitlen \<lfloor>x\<rfloor> - 1 else - bitlen (\<lceil>1 / x\<rceil> - 1))"

text \<open>Rounding to the nearest integer, to the even one at a tie.\<close>

definition roundTiesToEven :: "rat \<Rightarrow> int" where
  "roundTiesToEven y =
     (let f = \<lfloor>y\<rfloor>; r = y - of_int f
      in if r < 1 / 2 then f else if 1 / 2 < r then f + 1 else if even f then f else f + 1)"

text \<open>
  The Number value for a rational \<open>x\<close>: the double nearest to \<open>x\<close>, the one with the even
  significand at a tie. The doubles around \<open>x\<close> are the multiples of \<open>2\<^sup>e\<^sup>-\<^sup>5\<^sup>2\<close>, \<open>e\<close> the
  exponent of \<open>\<bar>x\<bar>\<close> and at least \<open>-1022\<close> (below it the doubles are subnormal and
  equally spaced). The range has no upper end here: beyond \<open>2\<^sup>1\<^sup>0\<^sup>2\<^sup>4\<close> the source has
  \<^verbatim>\<open>Infinity\<close>, which no sum of integer ratings and no quotient of one reaches.
\<close>

definition nearest_double :: "rat \<Rightarrow> rat" where
  "nearest_double x =
     (if x = 0 then 0
      else let q = 2 powi (max (exponent \<bar>x\<bar>) (- 1022) - 52)
           in sgn x * of_int (roundTiesToEven (\<bar>x\<bar> / q)) * q)"

text \<open>
  The number a JSON integer is read as, and \<^verbatim>\<open>a + b\<close> and \<^verbatim>\<open>a / b\<close> on numbers: the exact
  result, rounded. The pages divide by the length of a non-empty array only.
\<close>

definition number_of_int :: "int \<Rightarrow> rat" where
  "number_of_int i = nearest_double (of_int i)"

definition number_add :: "rat \<Rightarrow> rat \<Rightarrow> rat" where
  "number_add a b = nearest_double (a + b)"

definition number_divide :: "rat \<Rightarrow> rat \<Rightarrow> rat" where
  "number_divide a b = nearest_double (a / b)"


section \<open>Aggregation (\<^verbatim>\<open>fetchBooks\<close> in Index.tsx, \<^verbatim>\<open>fetchProfileData\<close> in Profile.tsx)\<close>

text \<open>
  Both pages compute \<^verbatim>\<open>booksWithRatings\<close> with the same expression:
  \<^verbatim>\<open>
  booksData.map((book) => {
    const bookReviews = reviewsData.filter((r) => r.book_id === book.id);
    const avgRating = bookReviews.length > 0
      ? bookReviews.reduce((sum, r) => sum + r.rating, 0) / bookReviews.length
      : 0;
    return { ...book, averageRating: avgRating, reviewCount: bookReviews.length };
  })
  \<close>
  \<^verbatim>\<open>reduce\<close> with an initial value is a left fold; \<^verbatim>\<open>r.rating\<close> and
  \<^verbatim>\<open>bookReviews.length\<close> are numbers, and so are the sum and the quotient.
\<close>

definition booksWithRatings :: "book list \<Rightarrow> review list \<Rightarrow> bookWithRatings list" where
  "booksWithRatings booksData reviewsData =
     map (\<lambda>book.
       let bookReviews = filter (\<lambda>r. book_id r = b_id book) reviewsData;
           avgRating =
             (if length bookReviews > 0
              then number_divide
                     (foldl (\<lambda>sum r. number_add sum (number_of_int (rating r))) 0 bookReviews)
                     (number_of_int (int (length bookReviews)))
              else 0)
       in book.extend book \<lparr>averageRating = avgRating, reviewCount = length bookReviews\<rparr>)
     booksData"


section \<open>Catalogue page: filter, sort, paginate (Index.tsx)\<close>

text \<open>
  The state of the \<^verbatim>\<open>Index\<close> component that the pipeline reads and writes
  (\<^verbatim>\<open>useState\<close> hooks; \<^verbatim>\<open>user\<close> and \<^verbatim>\<open>isLoading\<close> play no part in it).
\<close>

record Index_state =
  books :: "bookWithRatings list"
  filteredBooks :: "bookWithRatings list"
  searchTerm :: string
  selectedGenre :: string
  sortBy :: string
  currentPage :: int

definition ITEMS_PER_PAGE :: int where
  "ITEMS_PER_PAGE = 5"

text \<open>\<^verbatim>\<open>s.includes(t)\<close>: \<open>t\<close> occurs in \<open>s\<close> as a contiguous run.\<close>

definition str_includes :: "string \<Rightarrow> string \<Rightarrow> bool" where
  "str_includes s t = sublist t s"

text \<open>
  \<^verbatim>\<open>Array.prototype.sort(comparefn)\<close>. ECMAScript requires the sort to be stable and,
  for a consistent comparator, to put \<open>a\<close> before \<open>b\<close> only if \<open>comparefn(a, b) \<le> 0\<close>;
  the stable insertion sort below is that function. An element is inserted in front of
  the first element it does not compare greater than, so equal elements keep their
  order.
\<close>

fun insert_by :: "('a \<Rightarrow> 'a \<Rightarrow> rat) \<Rightarrow> 'a \<Rightarrow> 'a list \<Rightarrow> 'a list" where
  "insert_by comparefn x [] = [x]"
| "insert_by comparefn x (y # ys) =
     (if comparefn x y \<le> 0 then x # y # ys else y # insert_by comparefn x ys)"

fun sort_array :: "('a \<Rightarrow> 'a \<Rightarrow> rat) \<Rightarrow> 'a list \<Rightarrow> 'a list" where
  "sort_array comparefn [] = []"
| "sort_array comparefn (x # xs) = insert_by comparefn x (sort_array comparefn xs)"

text \<open>
  The comparator of \<^verbatim>\<open>filterAndSortBooks\<close>, a \<^verbatim>\<open>switch\<close> on \<^verbatim>\<open>sortBy\<close> whose default
  branch is the order by creation time. The library functions it calls are parameters:
  \<open>localeCompare\<close> is \<^verbatim>\<open>String.prototype.localeCompare\<close> and \<open>getTime\<close> is
  \<^verbatim>\<open>new Date(s).getTime()\<close> on the timestamp strings of the store. The sort reads
  the sign of the difference only, which is the sign of the exact difference: the
  subtraction of two doubles rounds to zero only when they are equal.
\<close>

definition compareBooks ::
  "(string \<Rightarrow> string \<Rightarrow> int) \<Rightarrow> (string \<Rightarrow> int) \<Rightarrow> string
     \<Rightarrow> bookWithRatings \<Rightarrow> bookWithRatings \<Rightarrow> rat" where
  "compareBooks localeCompare getTime key a b =
     (if key = ''rating'' then averageRating b - averageRating a
      else if key = ''year'' then of_int (published_year b - published_year a)
      else if key = ''title'' then of_int (localeCompare (title a) (title b))
      else of_int (getTime (book.created_at b) - getTime (book.created_at a)))"

text \<open>
  \<^verbatim>\<open>filterAndSortBooks\<close>: the search filter runs only for a non-empty (truthy)
  \<^verbatim>\<open>searchTerm\<close>, the genre filter only for a selection other than \<^verbatim>\<open>"all"\<close>; the result
  is sorted, stored in \<^verbatim>\<open>filteredBooks\<close>, and \<^verbatim>\<open>currentPage\<close> is set to 1.
  \<open>toLowerCase\<close> is \<^verbatim>\<open>String.prototype.toLowerCase\<close>.
\<close>

definition filterAndSortBooks ::
  "(string \<Rightarrow> string) \<Rightarrow> (string \<Rightarrow> string \<Rightarrow> int) \<Rightarrow> (string \<Rightarrow> int)
     \<Rightarrow> Index_state \<Rightarrow> Index_state" where
  "filterAndSortBooks toLowerCase localeCompare getTime st =
     (let filtered = books st;
          filtered =
            (if searchTerm st \<noteq> []
             then filter (\<lambda>book.
                    str_includes (toLowerCase (title book)) (toLowerCase (searchTerm st))
                    \<or> str_includes (toLowerCase (author book)) (toLowerCase (searchTerm st)))
                    filtered
             else filtered);
          filtered =
            (if selectedGenre st \<noteq> ''all''
             then filter (\<lambda>book. genre book = selectedGenre st) filtered
             else filtered);
          filtered = sort_array (compareBooks localeCompare getTime (sortBy st)) filtered
      in st\<lparr>filteredBooks := filtered, currentPage := 1\<rparr>)"

text \<open>
  \<^verbatim>\<open>Array.prototype.slice(start, end)\<close> on integer arguments: a negative index counts
  from the end, and both are clamped to the array.
\<close>

definition slice :: "'a list \<Rightarrow> int \<Rightarrow> int \<Rightarrow> 'a list" where
  "slice xs start end =
     (let len = int (length xs);
          k = (if start < 0 then max (len + start) 0 else min start len);
          final = (if end < 0 then max (len + end) 0 else min end len)
      in take (nat (final - k)) (drop (nat k) xs))"

text \<open>\<^verbatim>\<open>Math.ceil(filteredBooks.length / ITEMS_PER_PAGE)\<close>.\<close>

definition totalPages :: "Index_state \<Rightarrow> int" where
  "totalPages st = \<lceil>(of_nat (length (filteredBooks st)) :: rat) / of_int ITEMS_PER_PAGE\<rceil>"

definition paginatedBooks :: "Index_state \<Rightarrow> bookWithRatings list" where
  "paginatedBooks st =
     slice (filteredBooks st)
       ((currentPage st - 1) * ITEMS_PER_PAGE) (currentPage st * ITEMS_PER_PAGE)"

text \<open>
  The state setters of the page and the effect
  \<^verbatim>\<open>useEffect(() => { filterAndSortBooks(); }, [books, searchTerm, selectedGenre, sortBy])\<close>.
  A setter stores its argument; the effect runs after a render in which one of its
  dependencies differs from the previous render. Strings are compared by value, so
  setting the value a string already has leaves the dependencies as they were;
  \<^verbatim>\<open>setBooks\<close> always stores a fresh array. \<open>dispatch\<close> is one setter call followed by
  the effects it triggers.
\<close>

datatype Index_event =
    SetBooks "bookWithRatings list"
  | SetSearchTerm string
  | SetSelectedGenre string
  | SetSortBy string
  | SetCurrentPage int

fun setState :: "Index_event \<Rightarrow> Index_state \<Rightarrow> Index_state" where
  "setState (SetBooks bs) st = st\<lparr>books := bs\<rparr>"
| "setState (SetSearchTerm v) st = st\<lparr>searchTerm := v\<rparr>"
| "setState (SetSelectedGenre v) st = st\<lparr>selectedGenre := v\<rparr>"
| "setState (SetSortBy v) st = st\<lparr>sortBy := v\<rparr>"
| "setState (SetCurrentPage p) st = st\<lparr>currentPage := p\<rparr>"

fun dependencyChanged :: "Index_event \<Rightarrow> Index_state \<Rightarrow> bool" where
  "dependencyChanged (SetBooks bs) st = True"
| "dependencyChanged (SetSearchTerm v) st = (v \<noteq> searchTerm st)"
| "dependencyChanged (SetSelectedGenre v) st = (v \<noteq> selectedGenre st)"
| "dependencyChanged (SetSortBy v) st = (v \<noteq> sortBy st)"
| "dependencyChanged (SetCurrentPage p) st = False"

definition dispatch ::
  "(string \<Rightarrow> string) \<Rightarrow> (string \<Rightarrow> string \<Rightarrow> int) \<Rightarrow> (string \<Rightarrow> int)
     \<Rightarrow> Index_event \<Rightarrow> Index_state \<Rightarrow> Index_state" where
  "dispatch toLowerCase localeCompare getTime ev st =
     (if dependencyChanged ev st
      then filterAndSortBooks toLowerCase localeCompare getTime (setState ev st)
      else setState ev st)"


section \<open>Rendering a rating (BookCard.tsx and the book page)\<close>

text \<open>The decimal digits of a natural number.\<close>

fun decimal :: "nat \<Rightarrow> string" where
  "decimal n =
     (if n < 10 then [''0123456789'' ! n]
      else decimal (n div 10) @ [''0123456789'' ! (n mod 10)])"

declare decimal.simps [simp del]

text \<open>
  \<^verbatim>\<open>x.toFixed(1)\<close> for a number below \<open>10\<^sup>2\<^sup>1\<close> in absolute value (beyond it the
  source prints exponent notation, which no rating reaches): the sign, then the integer
  \<open>n\<close> for which \<open>n / 10\<close> is closest to the exact value of \<open>\<bar>x\<bar>\<close>, the larger one at a
  tie, printed with a point before its last digit.
\<close>

definition toFixed1 :: "rat \<Rightarrow> string" where
  "toFixed1 x =
     (let s = (if x < 0 then ''-'' else []);
          n = nat \<lfloor>\<bar>x\<bar> * 10 + 1 / 2\<rfloor>
      in s @ decimal (n div 10) @ ''.'' @ decimal (n mod 10))"

text \<open>
  BookCard.tsx: \<^verbatim>\<open>{averageRating > 0 ? averageRating.toFixed(1) : "No ratings"}\<close>, the
  property \<^verbatim>\<open>averageRating\<close> being optional with default 0.
\<close>

definition BookCard_rating :: "rat option \<Rightarrow> string" where
  "BookCard_rating prop =
     (let averageRating = (case prop of None \<Rightarrow> 0 | Some x \<Rightarrow> x)
      in if averageRating > 0 then toFixed1 averageRating else ''No ratings'')"

text \<open>
  The book page computes its own text from the reviews of the book:
  \<^verbatim>\<open>reviews.length > 0 ? (reviews.reduce((sum, r) => sum + r.rating, 0) / reviews.length).toFixed(1) : "0.0"\<close>.
\<close>

definition BookDetails_averageRating :: "review list \<Rightarrow> string" where
  "BookDetails_averageRating reviews =
     (if length reviews > 0
      then toFixed1
             (number_divide
                (foldl (\<lambda>sum r. number_add sum (number_of_int (rating r))) 0 reviews)
                (number_of_int (int (length reviews))))
      else ''0.0'')"


section \<open>Book page: review form and deletions (BookDetails)\<close>

subsection \<open>Library functions on strings\<close>

text \<open>
  White space and line terminators of \<^verbatim>\<open>String.prototype.trim\<close> and of \<^verbatim>\<open>parseInt\<close>,
  among the code units below 256: tab, line feed, vertical tab, form feed, carriage
  return, space and the no-break space U+00A0.
\<close>

definition isWhiteSpace :: "char \<Rightarrow> bool" where
  "isWhiteSpace c = ((of_char c :: nat) \<in> set [9, 10, 11, 12, 13, 32, 160])"

definition trim :: "string \<Rightarrow> string" where
  "trim s = rev (dropWhile isWhiteSpace (rev (dropWhile isWhiteSpace s)))"

text \<open>
  The value of a character as a digit: \<open>0\<close> to \<open>9\<close>, then the letters in either case
  from 10; 36, below no radix, for any other character.
\<close>

definition digitValue :: "char \<Rightarrow> nat" where
  "digitValue c =
     (let n = (of_char c :: nat)
      in if 48 \<le> n \<and> n \<le> 57 then n - 48
         else if 97 \<le> n \<and> n \<le> 122 then n - 87
         else if 65 \<le> n \<and> n \<le> 90 then n - 55
         else 36)"

text \<open>
  \<^verbatim>\<open>parseInt(string)\<close> without a radix: leading white space is skipped, a sign is read,
  a prefix \<^verbatim>\<open>0x\<close> or \<^verbatim>\<open>0X\<close> selects radix 16, and the longest run of digits is the
  value; \<open>None\<close> is \<^verbatim>\<open>NaN\<close>, the answer when there is no digit. The value is kept exact
  (the source rounds a value beyond \<open>2\<^sup>5\<^sup>3\<close> to a double, which cannot move it into the
  range 1 to 5 tested below).
\<close>

definition parseInt :: "string \<Rightarrow> int option" where
  "parseInt string =
     (let S = dropWhile isWhiteSpace string;
          sign = (if S \<noteq> [] \<and> hd S = CHR ''-'' then - 1 else 1 :: int);
          S = (if S \<noteq> [] \<and> (hd S = CHR ''+'' \<or> hd S = CHR ''-'') then tl S else S);
          stripPrefix = (take 2 S = ''0x'' \<or> take 2 S = ''0X'');
          R = (if stripPrefix then 16 else 10 :: nat);
          S = (if stripPrefix then drop 2 S else S);
          Z = takeWhile (\<lambda>c. digitValue c < R) S
      in if Z = [] then None
         else Some (sign * int (foldl (\<lambda>acc c. acc * R + digitValue c) 0 Z)))"

text \<open>\<^verbatim>\<open>Number.prototype.toString()\<close> on an integer.\<close>

definition toString :: "int \<Rightarrow> string" where
  "toString i = (if i < 0 then ''-'' @ decimal (nat (- i)) else decimal (nat i))"

subsection \<open>Validation\<close>

text \<open>
  \<^verbatim>\<open>
  const reviewSchema = z.object({
    rating: z.number().min(1).max(5),
    reviewText: z.string().trim().min(10, "Review must be at least 10 characters")
                          .max(1000, "Review must be less than 1000 characters"),
  });
  \<close>
  \<^verbatim>\<open>reviewSchema.parse\<close> either returns the validated object, whose text is the trimmed
  one, or throws a \<^verbatim>\<open>ZodError\<close> with the issues of all fields, here the list of their
  messages in field order (\<open>Inl\<close>). \<^verbatim>\<open>z.number()\<close> refuses \<^verbatim>\<open>NaN\<close>; \<^verbatim>\<open>min\<close> and \<^verbatim>\<open>max\<close>
  are inclusive bounds, on the number and on the length of the trimmed string. The
  messages of the rating are the defaults of the library.
\<close>

definition reviewSchema_parse :: "int option \<Rightarrow> string \<Rightarrow> string list + int \<times> string" where
  "reviewSchema_parse ratingInput reviewTextInput =
     (let text = trim reviewTextInput;
          textIssues =
            (if length text < 10 then [''Review must be at least 10 characters''] else [])
            @ (if length text > 1000 then [''Review must be less than 1000 characters''] else []);
          ratingIssues =
            (case ratingInput of
               None \<Rightarrow> [''Expected number, received nan'']
             | Some n \<Rightarrow>
                 (if n < 1 then [''Number must be greater than or equal to 1''] else [])
                 @ (if n > 5 then [''Number must be less than or equal to 5''] else []))
      in case (ratingInput, ratingIssues @ textIssues) of
           (Some n, []) \<Rightarrow> Inr (n, text)
         | (_, issues) \<Rightarrow> Inl issues)"

subsection \<open>Component state, store requests, effects\<close>

text \<open>
  The \<^verbatim>\<open>useState\<close> hooks of \<^verbatim>\<open>BookDetails\<close>; \<open>user\<close> holds the id of the signed-in user
  (\<^verbatim>\<open>session?.user ?? null\<close>) and \<open>param_id\<close> the route parameter \<^verbatim>\<open>id\<close>.
\<close>

record BookDetails_state =
  param_id :: string
  user :: "string option"
  book :: "book option"
  reviews :: "review list"
  rating :: string
  reviewText :: string
  editingReview :: "string option"
  isLoading :: bool
  isSubmitting :: bool

text \<open>
  A call of the store client, by table and operation:
  \<^verbatim>\<open>from("books").select(..).eq("id", id)\<close> followed by the reviews of the book,
  \<^verbatim>\<open>from("reviews").update({rating, review_text}).eq("id", editingReview)\<close>,
  \<^verbatim>\<open>from("reviews").insert({book_id, user_id, rating, review_text})\<close>,
  \<^verbatim>\<open>from("reviews").delete().eq("id", reviewId)\<close>, \<^verbatim>\<open>from("books").delete().eq("id", id)\<close>.
\<close>

datatype store_request =
    SelectBookDetails string
  | UpdateReview string int string
  | InsertReview string string int string
  | DeleteReview string
  | DeleteBook string

text \<open>
  What the store answers: no error, an error with its message, or the rows of a read
  (the book alone when the query of the reviews failed after it).
\<close>

datatype store_answer =
    Succeeded
  | Failed string
  | Fetched book "review list"
  | FetchedBookOnly book

text \<open>\<^verbatim>\<open>toast({title, description})\<close> and \<^verbatim>\<open>navigate(path)\<close>.\<close>

datatype effect =
    Toast string string
  | Navigate string

text \<open>
  An \<^verbatim>\<open>async\<close> handler runs to its first \<^verbatim>\<open>await\<close> of a store call (\<open>_call\<close>: the new
  state, the effects, and the store requests issued), is suspended, and continues when
  the store answers (\<open>_resume\<close>). A handler that returns or throws before the
  \<^verbatim>\<open>await\<close> issues no request.
\<close>

type_synonym handler_result = "BookDetails_state \<times> effect list \<times> store_request list"

text \<open>
  \<^verbatim>\<open>if (editingReview)\<close> and \<^verbatim>\<open>{editingReview && ...}\<close>: a value of type
  \<^verbatim>\<open>string | null\<close> is truthy when it is a non-empty string.
\<close>

definition truthy :: "string option \<Rightarrow> bool" where
  "truthy s = (s \<noteq> None \<and> s \<noteq> Some [])"

subsection \<open>\<^verbatim>\<open>fetchBookDetails\<close>\<close>

definition fetchBookDetails_call :: "BookDetails_state \<Rightarrow> handler_result" where
  "fetchBookDetails_call st =
     (st\<lparr>isLoading := True\<rparr>, [], [SelectBookDetails (param_id st)])"

fun fetchBookDetails_resume :: "store_answer \<Rightarrow> BookDetails_state \<Rightarrow> handler_result" where
  "fetchBookDetails_resume (Fetched bookData reviewsData) st =
     (st\<lparr>book := Some bookData, reviews := reviewsData, isLoading := False\<rparr>, [], [])"
| "fetchBookDetails_resume (FetchedBookOnly bookData) st =
     (st\<lparr>book := Some bookData, isLoading := False\<rparr>,
      [Toast ''Error'' ''Failed to fetch book details''], [])"
| "fetchBookDetails_resume _ st =
     (st\<lparr>isLoading := False\<rparr>, [Toast ''Error'' ''Failed to fetch book details''], [])"

subsection \<open>\<^verbatim>\<open>handleSubmitReview\<close>\<close>

text \<open>
  Up to the \<^verbatim>\<open>await\<close>: the guard on \<^verbatim>\<open>user\<close> returns first; then
  \<^verbatim>\<open>setIsSubmitting(true)\<close>, the parse inside \<^verbatim>\<open>try\<close>, whose \<^verbatim>\<open>ZodError\<close> is caught
  and shown with its first message, and \<^verbatim>\<open>finally { setIsSubmitting(false) }\<close>. With a
  validated draft the update or the insert is issued and the handler is suspended with
  \<^verbatim>\<open>isSubmitting\<close> set.
\<close>

definition handleSubmitReview_call :: "BookDetails_state \<Rightarrow> handler_result" where
  "handleSubmitReview_call st =
     (case user st of
        None \<Rightarrow>
          (st, [Toast ''Authentication Required'' ''Please log in to submit a review'',
                Navigate ''/auth''], [])
      | Some uid \<Rightarrow>
          (case reviewSchema_parse (parseInt (rating st)) (reviewText st) of
             Inl issues \<Rightarrow>
               (st\<lparr>isSubmitting := False\<rparr>, [Toast ''Validation Error'' (hd issues)], [])
           | Inr (validated_rating, validated_reviewText) \<Rightarrow>
               (if truthy (editingReview st)
                then (st\<lparr>isSubmitting := True\<rparr>, [],
                      [UpdateReview (the (editingReview st)) validated_rating
                         validated_reviewText])
                else (st\<lparr>isSubmitting := True\<rparr>, [],
                      [InsertReview (param_id st) uid validated_rating validated_reviewText]))))"

text \<open>
  After the answer to the update or the insert: an error is shown with its message
  (\<^verbatim>\<open>error.message || "Failed to submit review"\<close>); otherwise the success toast, the
  draft is reset (and \<^verbatim>\<open>editingReview\<close> after an update) and \<^verbatim>\<open>fetchBookDetails()\<close> is
  called. \<^verbatim>\<open>finally\<close> clears \<^verbatim>\<open>isSubmitting\<close> on both paths.
\<close>

definition handleSubmitReview_resume ::
  "store_request \<Rightarrow> store_answer \<Rightarrow> BookDetails_state \<Rightarrow> handler_result" where
  "handleSubmitReview_resume request answer st =
     (case answer of
        Failed message \<Rightarrow>
          (st\<lparr>isSubmitting := False\<rparr>,
           [Toast ''Error'' (if message = [] then ''Failed to submit review'' else message)], [])
      | _ \<Rightarrow>
          (let (st1, description) =
                 (case request of
                    UpdateReview _ _ _ \<Rightarrow>
                      (st\<lparr>editingReview := None\<rparr>, ''Review updated successfully'')
                  | _ \<Rightarrow> (st, ''Review submitted successfully''));
               st2 = st1\<lparr>rating := ''5'', reviewText := []\<rparr>;
               (st3, effects, requests) = fetchBookDetails_call st2
           in (st3\<lparr>isSubmitting := False\<rparr>, Toast ''Success'' description # effects, requests)))"

subsection \<open>\<^verbatim>\<open>handleEditReview\<close>, the Cancel button, \<^verbatim>\<open>handleDeleteReview\<close>, \<^verbatim>\<open>handleDeleteBook\<close>\<close>

definition handleEditReview :: "review \<Rightarrow> BookDetails_state \<Rightarrow> BookDetails_state" where
  "handleEditReview r st =
     st\<lparr>editingReview := Some (r_id r), rating := toString (review.rating r),
        reviewText := review_text r\<rparr>"

definition cancelEdit :: "BookDetails_state \<Rightarrow> BookDetails_state" where
  "cancelEdit st = st\<lparr>editingReview := None, rating := ''5'', reviewText := []\<rparr>"

text \<open>
  \<^verbatim>\<open>handleDeleteReview(reviewId)\<close> calls the store at once; the state is not read.
\<close>

definition handleDeleteReview_call :: "string \<Rightarrow> BookDetails_state \<Rightarrow> handler_result" where
  "handleDeleteReview_call reviewId st = (st, [], [DeleteReview reviewId])"

definition handleDeleteReview_resume :: "store_answer \<Rightarrow> BookDetails_state \<Rightarrow> handler_result" where
  "handleDeleteReview_resume answer st =
     (case answer of
        Failed message \<Rightarrow> (st, [Toast ''Error'' ''Failed to delete review''], [])
      | _ \<Rightarrow>
          (let (st1, effects, requests) = fetchBookDetails_call st
           in (st1, Toast ''Success'' ''Review deleted successfully'' # effects, requests)))"

text \<open>\<open>confirmed\<close> is the answer to \<^verbatim>\<open>window.confirm\<close>.\<close>

definition handleDeleteBook_call :: "bool \<Rightarrow> BookDetails_state \<Rightarrow> handler_result" where
  "handleDeleteBook_call confirmed st =
     (if \<not> confirmed then (st, [], []) else (st, [], [DeleteBook (param_id st)]))"

definition handleDeleteBook_resume :: "store_answer \<Rightarrow> BookDetails_state \<Rightarrow> handler_result" where
  "handleDeleteBook_resume answer st =
     (case answer of
        Failed message \<Rightarrow> (st, [Toast ''Error'' ''Failed to delete book''], [])
      | _ \<Rightarrow> (st, [Toast ''Success'' ''Book deleted successfully'', Navigate ''/''], []))"

subsection \<open>What the rendered page offers\<close>

text \<open>
  The page shows its controls once loading is over and the book is there. The review
  form is rendered under \<^verbatim>\<open>{user && ...}\<close>; its button has
  \<^verbatim>\<open>disabled={isSubmitting || !reviewText.trim()}\<close>. The Edit and Delete buttons of a
  review are rendered under \<^verbatim>\<open>{user && user.id === review.user_id && ...}\<close>, those of the
  book under \<^verbatim>\<open>{user && user.id === book.added_by && ...}\<close>.
\<close>

definition pageShown :: "BookDetails_state \<Rightarrow> bool" where
  "pageShown st = (\<not> isLoading st \<and> book st \<noteq> None)"

definition formShown :: "BookDetails_state \<Rightarrow> bool" where
  "formShown st = (pageShown st \<and> user st \<noteq> None)"

definition submitEnabled :: "BookDetails_state \<Rightarrow> bool" where
  "submitEnabled st = (formShown st \<and> \<not> (isSubmitting st \<or> trim (reviewText st) = []))"

definition reviewButtonsShown :: "BookDetails_state \<Rightarrow> review \<Rightarrow> bool" where
  "reviewButtonsShown st r = (pageShown st \<and> user st = Some (user_id r))"

definition bookButtonsShown :: "BookDetails_state \<Rightarrow> bool" where
  "bookButtonsShown st =
     (pageShown st \<and> user st \<noteq> None \<and> user st = Option.bind (book st) added_by)"

subsection \<open>The page as a transition system\<close>

text \<open>
  A configuration is the component state with the store requests that were issued and
  are not answered yet; the mounted component has called \<^verbatim>\<open>fetchBookDetails\<close> when the
  route has an \<^verbatim>\<open>id\<close>. An event is what the user can do on the rendered page, a change
  of the session, or the answer of the store to one of the pending requests, in any
  order. \<open>step\<close> is \<open>None\<close> for an event the page does not offer: a control that is not
  rendered or is disabled, a rating outside the options of the select, a text beyond
  the \<^verbatim>\<open>maxLength\<close> of the text area, an answer of the wrong kind.
\<close>

record config =
  page :: BookDetails_state
  inflight :: "store_request list"

datatype event =
    AuthChanged "string option"
  | ChangeRating string
  | ChangeReviewText string
  | ClickSubmit
  | ClickEdit nat
  | ClickCancel
  | ClickDeleteReview nat
  | ClickDeleteBook bool
  | StoreAnswered nat store_answer

definition mount :: "string \<Rightarrow> config" where
  "mount bookId =
     \<lparr>page = \<lparr>param_id = bookId, user = None, book = None, reviews = [], rating = ''5'',
               reviewText = [], editingReview = None, isLoading = True,
               isSubmitting = False\<rparr>,
      inflight = (if bookId = [] then [] else [SelectBookDetails bookId])\<rparr>"

definition after_handler :: "config \<Rightarrow> handler_result \<Rightarrow> config" where
  "after_handler c res =
     (case res of (st, effects, requests) \<Rightarrow> \<lparr>page = st, inflight = inflight c @ requests\<rparr>)"

fun resume :: "store_request \<Rightarrow> store_answer \<Rightarrow> BookDetails_state \<Rightarrow> handler_result option" where
  "resume (SelectBookDetails i) Succeeded st = None"
| "resume (SelectBookDetails i) answer st = Some (fetchBookDetails_resume answer st)"
| "resume request (Fetched b rs) st = None"
| "resume request (FetchedBookOnly b) st = None"
| "resume (DeleteReview i) answer st = Some (handleDeleteReview_resume answer st)"
| "resume (DeleteBook i) answer st = Some (handleDeleteBook_resume answer st)"
| "resume request answer st = Some (handleSubmitReview_resume request answer st)"

fun step :: "event \<Rightarrow> config \<Rightarrow> config option" where
  "step (AuthChanged u) c = Some (c\<lparr>page := (page c)\<lparr>user := u\<rparr>\<rparr>)"
| "step (ChangeRating v) c =
     (if formShown (page c) \<and> v \<in> set [''5'', ''4'', ''3'', ''2'', ''1'']
      then Some (c\<lparr>page := (page c)\<lparr>rating := v\<rparr>\<rparr>) else None)"
| "step (ChangeReviewText v) c =
     (if formShown (page c) \<and> length v \<le> 1000
      then Some (c\<lparr>page := (page c)\<lparr>reviewText := v\<rparr>\<rparr>) else None)"
| "step ClickSubmit c =
     (if submitEnabled (page c)
      then Some (after_handler c (handleSubmitReview_call (page c))) else None)"
| "step (ClickEdit i) c =
     (if i < length (reviews (page c)) \<and> reviewButtonsShown (page c) (reviews (page c) ! i)
      then Some (c\<lparr>page := handleEditReview (reviews (page c) ! i) (page c)\<rparr>) else None)"
| "step ClickCancel c =
     (if formShown (page c) \<and> truthy (editingReview (page c))
      then Some (c\<lparr>page := cancelEdit (page c)\<rparr>) else None)"
| "step (ClickDeleteReview i) c =
     (if i < length (reviews (page c)) \<and> reviewButtonsShown (page c) (reviews (page c) ! i)
      then Some (after_handler c
                   (handleDeleteReview_call (r_id (reviews (page c) ! i)) (page c)))
      else None)"
| "step (ClickDeleteBook confirmed) c =
     (if bookButtonsShown (page c)
      then Some (after_handler c (handleDeleteBook_call confirmed (page c))) else None)"
| "step (StoreAnswered i answer) c =
     (if i < length (inflight c)
      then (case resume (inflight c ! i) answer (page c) of
              None \<Rightarrow> None
            | Some res \<Rightarrow>
                Some (after_handler (c\<lparr>inflight := take i (inflight c) @ drop (Suc i) (inflight c)\<rparr>)
                        res))
      else None)"

fun run :: "event list \<Rightarrow> config \<Rightarrow> config option" where
  "run [] c = Some c"
| "run (e # es) c = (case step e c of None \<Rightarrow> None | Some c' \<Rightarrow> run es c')"


fun is_submit :: "store_request \<Rightarrow> bool" where
  "is_submit (UpdateReview i r t) = True"
| "is_submit (InsertReview b u r t) = True"
| "is_submit request = False"

subsection \<open>The store's side of a review deletion\<close>

text \<open>
  The migration enables row-level security on \<^verbatim>\<open>public.reviews\<close> with
  \<^verbatim>\<open>CREATE POLICY "Users can delete their own reviews" ON public.reviews FOR DELETE
    USING (auth.uid() = user_id)\<close>
  and \<^verbatim>\<open>"Anyone can view reviews"\<close> for reads. A \<^verbatim>\<open>DELETE\<close> sees only the rows that pass
  the \<^verbatim>\<open>USING\<close> expression of its policy: \<^verbatim>\<open>delete().eq("id", reviewId)\<close> by the caller
  \<open>uid\<close> removes the rows with that id that the caller wrote, and a row it leaves in
  place raises no error. \<open>rows\<close> is the table in the order in which the page lists it.
\<close>

definition store_delete_review ::
  "string option \<Rightarrow> string \<Rightarrow> review list \<Rightarrow> review list \<times> store_answer" where
  "store_delete_review uid reviewId rows =
     (filter (\<lambda>r. \<not> (r_id r = reviewId \<and> uid = Some (user_id r))) rows, Succeeded)"

definition store_select_reviews :: "string \<Rightarrow> review list \<Rightarrow> review list" where
  "store_select_reviews bookId rows = filter (\<lambda>r. book_id r = bookId) rows"

text \<open>
  \<^verbatim>\<open>handleDeleteReview\<close> run to its end against that table, with the reviews read again
  by \<^verbatim>\<open>fetchBookDetails\<close> when it is called: the table, the state and the effects shown.
\<close>

definition handleDeleteReview_run ::
  "review list \<Rightarrow> string \<Rightarrow> BookDetails_state
     \<Rightarrow> review list \<times> BookDetails_state \<times> effect list" where
  "handleDeleteReview_run rows reviewId st =
     (let (st1, effects1, requests1) = handleDeleteReview_call reviewId st;
          (rows', answer) = store_delete_review (user st) reviewId rows;
          (st2, effects2, requests2) = handleDeleteReview_resume answer st1;
          st3 = (if requests2 = [] then st2
                 else st2\<lparr>reviews := store_select_reviews (param_id st2) rows',
                         isLoading := False\<rparr>)
      in (rows', st3, effects1 @ effects2))"


section \<open>Sample data\<close>

text \<open>
  Concrete inputs for the examples below: books of the seed data of the migration,
  reviews, and instances of the library functions that the catalogue page takes as
  parameters (lower case and comparison on ASCII text, the epoch milliseconds of the
  timestamps that occur in the sample).
\<close>

definition sample_book ::
  "string \<Rightarrow> string \<Rightarrow> string \<Rightarrow> string \<Rightarrow> int \<Rightarrow> string \<Rightarrow> book" where
  "sample_book i t a g y c =
     \<lparr>b_id = i, title = t, author = a, description = ''A novel.'', genre = g,
      published_year = y, added_by = None, created_at = c, updated_at = c\<rparr>"

definition sample_review :: "string \<Rightarrow> string \<Rightarrow> string \<Rightarrow> int \<Rightarrow> review" where
  "sample_review i b u n =
     \<lparr>r_id = i, book_id = b, user_id = u, rating = n,
      review_text = ''A fine book, truly.'', created_at = ''2024-02-01T00:00:00Z''\<rparr>"

definition sample_books :: "book list" where
  "sample_books =
     [sample_book ''b1'' ''The Midnight Library'' ''Matt Haig'' ''Fiction'' 2020
        ''2024-01-01T00:00:00Z'',
      sample_book ''b2'' ''Circe'' ''Madeline Miller'' ''Fantasy'' 2018
        ''2024-01-03T00:00:00Z'',
      sample_book ''b3'' ''The Alchemist'' ''Paulo Coelho'' ''Fiction'' 1988
        ''2024-01-02T00:00:00Z'']"

definition sample_reviews :: "review list" where
  "sample_reviews =
     [sample_review ''r1'' ''b1'' ''u1'' 4,
      sample_review ''r2'' ''b1'' ''u2'' 5,
      sample_review ''r3'' ''b3'' ''u1'' 3,
      sample_review ''r4'' ''b9'' ''u2'' 1]"

text \<open>Three reviews of the second book, with ratings 1, 2 and 2.\<close>

definition sample_thirds :: "review list" where
  "sample_thirds =
     [sample_review ''t1'' ''b2'' ''u1'' 1,
      sample_review ''t2'' ''b2'' ''u2'' 2,
      sample_review ''t3'' ''b2'' ''u3'' 2]"

definition sample_toLowerCase :: "string \<Rightarrow> string" where
  "sample_toLowerCase s =
     map (\<lambda>c. if 65 \<le> (of_char c :: nat) \<and> (of_char c :: nat) \<le> 90
               then char_of (of_char c + 32 :: nat) else c) s"

fun sample_localeCompare :: "string \<Rightarrow> string \<Rightarrow> int" where
  "sample_localeCompare [] [] = 0"
| "sample_localeCompare [] (y # ys) = - 1"
| "sample_localeCompare (x # xs) [] = 1"
| "sample_localeCompare (x # xs) (y # ys) =
     (if (of_char x :: nat) < of_char y then - 1
      else if (of_char y :: nat) < of_char x then 1
      else sample_localeCompare xs ys)"

definition sample_getTime :: "string \<Rightarrow> int" where
  "sample_getTime s =
     (if s = ''2024-01-01T00:00:00Z'' then 1704067200000
      else if s = ''2024-01-02T00:00:00Z'' then 1704153600000
      else if s = ''2024-01-03T00:00:00Z'' then 1704240000000
      else 0)"

definition sample_index :: "string \<Rightarrow> string \<Rightarrow> string \<Rightarrow> Index_state" where
  "sample_index term selected key =
     \<lparr>books = booksWithRatings sample_books sample_reviews, filteredBooks = [],
      searchTerm = term, selectedGenre = selected, sortBy = key, currentPage = 3\<rparr>"

definition seven_books :: "int \<Rightarrow> Index_state" where
  "seven_books p =
     \<lparr>books = [],
      filteredBooks = replicate 7 (hd (booksWithRatings sample_books sample_reviews)),
      searchTerm = [], selectedGenre = ''all'', sortBy = ''recent'', currentPage = p\<rparr>"


definition sample_page :: "string option \<Rightarrow> string \<Rightarrow> string \<Rightarrow> BookDetails_state" where
  "sample_page u r t =
     \<lparr>param_id = ''b1'', user = u, book = Some (hd sample_books),
      reviews = take 2 sample_reviews, rating = r, reviewText = t, editingReview = None,
      isLoading = False, isSubmitting = False\<rparr>"


text \<open>
  Two sessions on the book page: the viewer signs in, the page loads and the viewer
  types a review; in the second one the viewer then clicks Submit.
\<close>

definition sample_short_session :: "event list" where
  "sample_short_session =
     [AuthChanged (Some ''u1''),
      StoreAnswered 0 (Fetched (hd sample_books) (take 2 sample_reviews)),
      ChangeReviewText ''     short     '']"



section \<open>Properties of the rounding of numbers\<close>

lemma roundTiesToEven_of_int: "roundTiesToEven (of_int k) = k"
  by (simp add: roundTiesToEven_def)

lemma roundTiesToEven_cases:
  "roundTiesToEven y = \<lfloor>y\<rfloor> \<and> y - of_int \<lfloor>y\<rfloor> \<le> 1 / 2
   \<or> roundTiesToEven y = \<lfloor>y\<rfloor> + 1 \<and> 1 / 2 \<le> y - of_int \<lfloor>y\<rfloor>"
  by (simp add: roundTiesToEven_def Let_def)

lemma roundTiesToEven_error: "\<bar>of_int (roundTiesToEven y) - y\<bar> \<le> 1 / 2"
proof -
  have "of_int \<lfloor>y\<rfloor> \<le> y" "y < of_int \<lfloor>y\<rfloor> + 1" by linarith+
  with roundTiesToEven_cases [of y] show ?thesis
    by (auto simp: abs_le_iff)
qed

lemma roundTiesToEven_ge:
  assumes "of_int k \<le> y"
  shows "k \<le> roundTiesToEven y"
proof -
  from assms have "k \<le> \<lfloor>y\<rfloor>" by (simp add: le_floor_iff)
  with roundTiesToEven_cases [of y] show ?thesis by auto
qed

lemma roundTiesToEven_le:
  assumes "y \<le> of_int k"
  shows "roundTiesToEven y \<le> k"
proof (cases "y = of_int k")
  case True
  then show ?thesis by (simp add: roundTiesToEven_of_int)
next
  case False
  with assms have "y < of_int k" by simp
  then have "\<lfloor>y\<rfloor> < k" by (simp add: floor_less_iff)
  with roundTiesToEven_cases [of y] show ?thesis by auto
qed

lemma exponent_bounds:
  assumes "0 < x"
  shows "2 powi exponent x \<le> x \<and> x < 2 powi (exponent x + 1)"
proof (cases "1 \<le> x")
  case True
  then have pos: "0 < \<lfloor>x\<rfloor>" by linarith
  define b where "b = bitlen \<lfloor>x\<rfloor>"
  from bitlen_bounds [OF pos] have lo: "2 ^ nat (b - 1) \<le> \<lfloor>x\<rfloor>" and hi: "\<lfloor>x\<rfloor> < 2 ^ nat b"
    by (simp_all add: b_def)
  have b1: "1 \<le> b" using pos by (simp add: b_def bitlen_alt_def)
  have "(2 :: rat) powi (b - 1) = 2 ^ nat (b - 1)"
    using b1 by (simp add: power_int_def)
  also have "\<dots> = of_int (2 ^ nat (b - 1))" by simp
  also have "\<dots> \<le> of_int \<lfloor>x\<rfloor>" using lo by (simp only: of_int_le_iff)
  also have "\<dots> \<le> x" by simp
  finally have 1: "2 powi (b - 1) \<le> x" .
  have "\<lfloor>x\<rfloor> + 1 \<le> 2 ^ nat b" using hi by simp
  then have "(of_int (\<lfloor>x\<rfloor> + 1) :: rat) \<le> of_int (2 ^ nat b)" by (simp only: of_int_le_iff)
  moreover have "x < of_int (\<lfloor>x\<rfloor> + 1)" by linarith
  ultimately have "x < of_int (2 ^ nat b)" by linarith
  also have "\<dots> = 2 powi b" using b1 by (simp add: power_int_def)
  finally have 2: "x < 2 powi b" .
  from True 1 2 show ?thesis by (simp add: exponent_def b_def)
next
  case False
  define y where "y = 1 / x"
  from False assms have y1: "1 < y" by (simp add: y_def)
  define z where "z = \<lceil>y\<rceil> - 1"
  have zpos: "0 < z" using y1 unfolding z_def by linarith
  define j where "j = bitlen z"
  from bitlen_bounds [OF zpos] have lo: "2 ^ nat (j - 1) \<le> z" and hi: "z < 2 ^ nat j"
    by (simp_all add: j_def)
  have j1: "1 \<le> j" using zpos by (simp add: j_def bitlen_alt_def)
  have "(of_int (2 ^ nat (j - 1)) :: rat) \<le> of_int z" using lo by (simp only: of_int_le_iff)
  moreover have "of_int z < y" unfolding z_def by linarith
  ultimately have "(of_int (2 ^ nat (j - 1)) :: rat) < y" by linarith
  then have ylo: "(2 :: rat) ^ nat (j - 1) < y" by simp
  have "z + 1 \<le> 2 ^ nat j" using hi by simp
  then have "(of_int (z + 1) :: rat) \<le> of_int (2 ^ nat j)" by (simp only: of_int_le_iff)
  moreover have "y \<le> of_int (z + 1)" unfolding z_def by linarith
  ultimately have "y \<le> (of_int (2 ^ nat j) :: rat)" by linarith
  then have yhi: "y \<le> (2 :: rat) ^ nat j" by simp
  have e: "exponent x = - j"
    using False by (simp add: exponent_def j_def z_def y_def)
  have "(2 :: rat) powi (- j) = 1 / 2 ^ nat j"
    using j1 by (simp add: power_int_def field_simps)
  also have "\<dots> \<le> x"
    using yhi assms by (simp add: y_def field_simps)
  finally have 1: "2 powi (- j) \<le> x" .
  have "x < 1 / 2 ^ nat (j - 1)"
    using ylo assms by (simp add: y_def field_simps)
  also have "\<dots> = 2 powi (- j + 1)"
  proof (cases "j = 1")
    case True then show ?thesis by simp
  next
    case False
    with j1 have "- j + 1 < 0" by simp
    then show ?thesis
      using j1 by (simp add: power_int_def nat_diff_distrib field_simps)
  qed
  finally have 2: "x < 2 powi (- j + 1)" .
  from 1 2 e show ?thesis by simp
qed


lemma exponent_ge:
  assumes "2 powi k \<le> x"
  shows "k \<le> exponent x"
proof (rule ccontr)
  assume "\<not> k \<le> exponent x"
  then have "exponent x + 1 \<le> k" by simp
  then have "(2 :: rat) powi (exponent x + 1) \<le> 2 powi k"
    by (intro power_int_increasing) simp_all
  moreover have "0 < x" using assms zero_less_power_int [of "2 :: rat" k] by linarith
  ultimately show False
    using exponent_bounds [of x] assms by linarith
qed

lemma exponent_le:
  assumes "0 < x" and "x \<le> 2 powi k"
  shows "exponent x \<le> k"
proof (rule ccontr)
  assume "\<not> exponent x \<le> k"
  then have "k < exponent x" by simp
  then have "(2 :: rat) powi k < 2 powi exponent x"
    by (intro power_int_strict_increasing) simp_all
  then show False
    using exponent_bounds [OF assms(1)] assms(2) by linarith
qed

lemma nearest_double_exact:
  assumes "\<bar>x\<bar> / 2 powi (max (exponent \<bar>x\<bar>) (- 1022) - 52) = of_int k"
  shows "nearest_double x = x"
proof (cases "x = 0")
  case True
  then show ?thesis by (simp add: nearest_double_def)
next
  case False
  define q :: rat where "q = 2 powi (max (exponent \<bar>x\<bar>) (- 1022) - 52)"
  have q: "0 < q" by (simp add: q_def)
  from assms have k: "\<bar>x\<bar> / q = of_int k" by (simp add: q_def)
  then have "of_int k * q = \<bar>x\<bar>" using q by (simp add: field_simps)
  with k have "of_int (roundTiesToEven (\<bar>x\<bar> / q)) * q = \<bar>x\<bar>"
    by (simp add: roundTiesToEven_of_int)
  then have "sgn x * of_int (roundTiesToEven (\<bar>x\<bar> / q)) * q = sgn x * \<bar>x\<bar>"
    by (simp add: mult.assoc)
  then show ?thesis
    using False by (simp add: nearest_double_def Let_def q_def [symmetric] sgn_mult_abs)
qed

lemma nearest_double_of_int:
  assumes "\<bar>n\<bar> \<le> 2 ^ 53"
  shows "nearest_double (of_int n) = of_int n"
proof (cases "n = 0")
  case True
  then show ?thesis by (simp add: nearest_double_def)
next
  case False
  define a :: rat where "a = \<bar>of_int n\<bar>"
  have a: "a = of_int \<bar>n\<bar>" by (simp add: a_def)
  have "1 \<le> \<bar>n\<bar>" using False by simp
  then have a1: "1 \<le> a" unfolding a by (simp only: of_int_1_le_iff)
  have a53: "a \<le> 2 ^ 53"
  proof -
    have "(of_int \<bar>n\<bar> :: rat) \<le> of_int (2 ^ 53)" using assms by (simp only: of_int_le_iff)
    then show ?thesis by (simp add: a)
  qed
  define e where "e = exponent a"
  have e0: "0 \<le> e" unfolding e_def by (rule exponent_ge) (use a1 in simp)
  have e53: "e \<le> 53" unfolding e_def by (rule exponent_le) (use a1 a53 in simp_all)
  have m: "max e (- 1022) = e" using e0 by simp
  show ?thesis
  proof (cases "e = 53")
    case True
    from exponent_bounds [of a] a1 True have "2 ^ 53 \<le> a"
      by (simp add: e_def [symmetric])
    with a53 have a_eq: "a = 2 ^ 53" by simp
    have "max (exponent a) (- 1022) - 52 = 1"
      using m True by (simp add: e_def)
    then have "a / 2 powi (max (exponent a) (- 1022) - 52) = a / 2"
      by simp
    also have "\<dots> = of_int (2 ^ 52)"
      by (simp add: a_eq)
    finally have "a / 2 powi (max (exponent a) (- 1022) - 52) = of_int (2 ^ 52)" .
    then show ?thesis
      unfolding a_def by (rule nearest_double_exact)
  next
    case False
    with e53 have le: "e \<le> 52" by simp
    have "(2 :: rat) powi (e - 52) = 1 / 2 ^ nat (52 - e)"
    proof -
      have "(2 :: rat) powi (e - 52) = 2 powi (- (52 - e))" by simp
      also have "\<dots> = inverse (2 powi (52 - e))" by (rule power_int_minus)
      also have "\<dots> = 1 / 2 ^ nat (52 - e)"
        using le by (simp add: power_int_def field_simps)
      finally show ?thesis .
    qed
    moreover have "max (exponent a) (- 1022) - 52 = e - 52"
      using m by (simp add: e_def)
    ultimately have "a / 2 powi (max (exponent a) (- 1022) - 52) = a * 2 ^ nat (52 - e)"
      by simp
    also have "\<dots> = of_int (\<bar>n\<bar> * 2 ^ nat (52 - e))"
      by (simp add: a)
    finally have "a / 2 powi (max (exponent a) (- 1022) - 52)
        = of_int (\<bar>n\<bar> * 2 ^ nat (52 - e))" .
    then show ?thesis
      unfolding a_def by (rule nearest_double_exact)
  qed
qed

lemma nearest_double_error:
  assumes "2 powi (- 1022) \<le> \<bar>x\<bar>"
  shows "\<bar>nearest_double x - x\<bar> \<le> \<bar>x\<bar> / 2 ^ 53"
proof -
  have pos: "0 < \<bar>x\<bar>" using assms zero_less_power_int [of "2 :: rat" "- 1022"] by linarith
  then have nz: "x \<noteq> 0" by simp
  define e where "e = exponent \<bar>x\<bar>"
  have "- 1022 \<le> e" unfolding e_def using assms by (rule exponent_ge)
  then have m: "max e (- 1022) = e" by simp
  define q :: rat where "q = 2 powi (e - 52)"
  have q: "0 < q" by (simp add: q_def)
  define r where "r = roundTiesToEven (\<bar>x\<bar> / q)"
  have nd: "nearest_double x = sgn x * of_int r * q"
    using nz by (simp add: nearest_double_def Let_def e_def [symmetric] m q_def r_def)
  have "nearest_double x - x = sgn x * of_int r * q - sgn x * \<bar>x\<bar>"
    by (simp add: nd sgn_mult_abs)
  also have "\<dots> = sgn x * q * (of_int r - \<bar>x\<bar> / q)"
    using q by (simp add: field_simps)
  finally have "\<bar>nearest_double x - x\<bar> = \<bar>sgn x\<bar> * q * \<bar>of_int r - \<bar>x\<bar> / q\<bar>"
    using q by (simp add: abs_mult)
  also have "\<dots> = q * \<bar>of_int r - \<bar>x\<bar> / q\<bar>"
    using nz by (simp add: abs_sgn_eq)
  also have "\<dots> \<le> q * (1 / 2)"
    using q roundTiesToEven_error [of "\<bar>x\<bar> / q"] unfolding r_def
    by (intro mult_left_mono) simp_all
  also have "q * (1 / 2) = 2 powi e / 2 ^ 53"
  proof -
    have "(2 :: rat) powi (e - 52) = 2 powi e / 2 powi 52"
      by (rule power_int_diff) simp
    then show ?thesis by (simp add: q_def)
  qed
  also have "\<dots> \<le> \<bar>x\<bar> / 2 ^ 53"
    using exponent_bounds [OF pos] by (simp add: e_def divide_right_mono)
  finally show ?thesis .
qed

lemma nearest_double_between:
  assumes "of_int lo \<le> x" and "x \<le> of_int hi" and "1 \<le> lo" and "hi \<le> 2 ^ 52"
  shows "of_int lo \<le> nearest_double x \<and> nearest_double x \<le> of_int hi"
proof -
  have x1: "1 \<le> x"
  proof -
    have "(1 :: rat) \<le> of_int lo" using assms(3) by simp
    with assms(1) show ?thesis by linarith
  qed
  have x52: "x \<le> 2 ^ 52"
  proof -
    have "(of_int hi :: rat) \<le> of_int (2 ^ 52)" using assms(4) by (simp only: of_int_le_iff)
    with assms(2) show ?thesis by simp
  qed
  define e where "e = exponent \<bar>x\<bar>"
  have ax: "\<bar>x\<bar> = x" using x1 by simp
  have e0: "0 \<le> e" unfolding e_def ax by (rule exponent_ge) (use x1 in simp)
  have e52: "e \<le> 52" unfolding e_def ax by (rule exponent_le) (use x1 x52 in simp_all)
  have m: "max e (- 1022) = e" using e0 by simp
  define p :: int where "p = 2 ^ nat (52 - e)"
  define q :: rat where "q = 2 powi (e - 52)"
  have qp: "q = 1 / of_int p"
  proof -
    have "(2 :: rat) powi (e - 52) = 2 powi (- (52 - e))" by simp
    also have "\<dots> = inverse (2 powi (52 - e))" by (rule power_int_minus)
    also have "\<dots> = 1 / 2 ^ nat (52 - e)"
      using e52 by (simp add: power_int_def field_simps)
    finally show ?thesis by (simp add: q_def p_def)
  qed
  have ppos: "0 < p" by (simp add: p_def)
  then have prat: "(0 :: rat) < of_int p" by simp
  define r where "r = roundTiesToEven (x * of_int p)"
  have sg: "sgn x = 1" and nz: "x \<noteq> 0" using x1 by simp_all
  have "nearest_double x = sgn x * of_int (roundTiesToEven (\<bar>x\<bar> / q)) * q"
    using nz by (simp add: nearest_double_def Let_def e_def [symmetric] m q_def)
  then have nd: "nearest_double x = of_int r / of_int p"
    by (simp add: sg ax qp r_def)
  have "of_int (lo * p) \<le> x * of_int p"
    using assms(1) prat by (simp add: mult_right_mono)
  then have "lo * p \<le> r" unfolding r_def by (rule roundTiesToEven_ge)
  then have "(of_int (lo * p) :: rat) \<le> of_int r" by (simp only: of_int_le_iff)
  then have lower: "of_int lo \<le> nearest_double x"
    using prat by (simp add: nd pos_le_divide_eq)
  have "x * of_int p \<le> of_int (hi * p)"
    using assms(2) prat by (simp add: mult_right_mono)
  then have "r \<le> hi * p" unfolding r_def by (rule roundTiesToEven_le)
  then have "(of_int r :: rat) \<le> of_int (hi * p)" by (simp only: of_int_le_iff)
  then have upper: "nearest_double x \<le> of_int hi"
    using prat by (simp add: nd pos_divide_le_eq)
  from lower upper show ?thesis ..
qed


section \<open>Properties of the aggregation\<close>

lemma truncate_extend: "book.truncate (book.extend (b::book) m) = b"
  by (simp add: book.defs)

lemma number_of_int_exact: "\<bar>i\<bar> \<le> 2 ^ 53 \<Longrightarrow> number_of_int i = of_int i"
  unfolding number_of_int_def by (rule nearest_double_of_int)

lemma number_add_exact:
  "\<bar>i + j\<bar> \<le> 2 ^ 53 \<Longrightarrow> number_add (of_int i) (of_int j) = of_int (i + j)"
  unfolding number_add_def using nearest_double_of_int [of "i + j"] by simp

lemma foldl_rating_sum:
  assumes "\<forall>r\<in>set rs. \<bar>review.rating r\<bar> \<le> b"
    and "\<bar>a\<bar> + b * int (length rs) \<le> 2 ^ 53"
  shows "foldl (\<lambda>sum r. number_add sum (number_of_int (review.rating r))) (of_int a) rs
           = of_int (a + sum_list (map review.rating rs))"
  using assms
proof (induction rs arbitrary: a)
  case Nil
  show ?case by simp
next
  case (Cons r rs)
  have rb: "\<bar>review.rating r\<bar> \<le> b"
    using Cons.prems(1) by simp
  then have b0: "0 \<le> b" by linarith
  then have bn0: "0 \<le> b * int (length rs)" by simp
  have bound: "\<bar>a\<bar> + b + b * int (length rs) \<le> 2 ^ 53"
    using Cons.prems(2) by (simp add: algebra_simps)
  have r53: "\<bar>review.rating r\<bar> \<le> 2 ^ 53"
    using rb bound bn0 by linarith
  have ar: "\<bar>a + review.rating r\<bar> \<le> 2 ^ 53"
    using rb bound bn0 by linarith
  have step: "number_add (of_int a) (number_of_int (review.rating r))
                = of_int (a + review.rating r)"
    by (simp only: number_of_int_exact [OF r53] number_add_exact [OF ar])
  have rest: "\<forall>r\<in>set rs. \<bar>review.rating r\<bar> \<le> b"
    using Cons.prems(1) by simp
  have bound': "\<bar>a + review.rating r\<bar> + b * int (length rs) \<le> 2 ^ 53"
    using rb bound by linarith
  have "foldl (\<lambda>sum r. number_add sum (number_of_int (review.rating r))) (of_int a) (r # rs)
          = foldl (\<lambda>sum r. number_add sum (number_of_int (review.rating r)))
              (of_int (a + review.rating r)) rs"
    by (simp only: foldl_Cons step)
  also have "\<dots> = of_int (a + review.rating r + sum_list (map review.rating rs))"
    by (rule Cons.IH [OF rest bound'])
  finally show ?case by (simp add: add.assoc)
qed

lemma abs_sum_ratings:
  assumes "\<forall>r\<in>set rs. \<bar>review.rating r\<bar> \<le> b"
  shows "\<bar>sum_list (map review.rating rs)\<bar> \<le> b * int (length rs)"
  using assms
proof (induction rs)
  case Nil
  show ?case by simp
next
  case (Cons r rs)
  then have "\<bar>review.rating r\<bar> \<le> b"
    and "\<bar>sum_list (map review.rating rs)\<bar> \<le> b * int (length rs)"
    by simp_all
  then show ?case by (simp add: algebra_simps)
qed

lemma length_ratings_bound:
  assumes rb: "\<forall>r\<in>set rs. \<bar>review.rating r\<bar> \<le> b"
    and bn: "b * int (length rs) \<le> 2 ^ 53"
    and nz: "sum_list (map review.rating rs) \<noteq> 0"
  shows "int (length rs) \<le> 2 ^ 53"
proof -
  have "\<exists>r\<in>set rs. review.rating r \<noteq> 0"
    using nz by (induction rs) auto
  then obtain r where "r \<in> set rs" "review.rating r \<noteq> 0" ..
  with rb have "1 \<le> b" by fastforce
  then have "int (length rs) \<le> b * int (length rs)"
    by (simp add: mult_le_cancel_right1)
  with bn show ?thesis by simp
qed

text \<open>
  When the ratings are at most \<open>b\<close> in absolute value and \<open>b\<close> times their number is at
  most \<open>2\<^sup>5\<^sup>3\<close>, every partial sum is an integer that a double holds, and the only
  rounding of the average is that of the division.
\<close>

lemma number_mean:
  assumes ne: "rs \<noteq> []"
    and rb: "\<forall>r\<in>set rs. \<bar>review.rating r\<bar> \<le> b"
    and bn: "b * int (length rs) \<le> 2 ^ 53"
  shows "number_divide
           (foldl (\<lambda>sum r. number_add sum (number_of_int (review.rating r))) 0 rs)
           (number_of_int (int (length rs)))
         = nearest_double (of_int (sum_list (map review.rating rs)) / of_nat (length rs))"
proof -
  have "foldl (\<lambda>sum r. number_add sum (number_of_int (review.rating r))) (of_int 0) rs
          = of_int (0 + sum_list (map review.rating rs))"
    by (rule foldl_rating_sum [OF rb]) (use bn in simp)
  then have sum: "foldl (\<lambda>sum r. number_add sum (number_of_int (review.rating r))) 0 rs
          = of_int (sum_list (map review.rating rs))"
    by simp
  show ?thesis
  proof (cases "sum_list (map review.rating rs) = 0")
    case True
    then show ?thesis by (simp add: sum number_divide_def)
  next
    case False
    then have "int (length rs) \<le> 2 ^ 53"
      by (rule length_ratings_bound [OF rb bn])
    then have "\<bar>int (length rs)\<bar> \<le> 2 ^ 53" by simp
    then have "number_of_int (int (length rs)) = of_int (int (length rs))"
      by (rule number_of_int_exact)
    then show ?thesis by (simp add: sum number_divide_def)
  qed
qed

lemma nearest_double_quotient:
  assumes n: "0 < n" and s: "\<bar>s\<bar> \<le> 2 ^ 53" and nn: "s = 0 \<or> int n \<le> 2 ^ 53"
  shows "\<bar>nearest_double (of_int s / of_nat n) - of_int s / of_nat n\<bar>
           \<le> \<bar>of_int s / of_nat n\<bar> / 2 ^ 53"
proof (cases "s = 0")
    case True
    then show ?thesis by (simp add: nearest_double_def)
  next
    case False
    then have "1 \<le> \<bar>s\<bar>" by linarith
    then have "(1::rat) \<le> of_int \<bar>s\<bar>" by (simp only: of_int_1_le_iff)
    then have s1: "(1::rat) \<le> \<bar>of_int s\<bar>" by simp
    have n53: "(of_nat n :: rat) \<le> 2 ^ 53"
      using nn False by (metis of_int_le_iff of_int_of_nat_eq of_int_numeral of_int_power)
    have npos: "(0::rat) < of_nat n" using n by simp
    have "(2::rat) powi (- 1022) \<le> 2 powi (- 53)"
      by (rule power_int_increasing) simp_all
    also have "\<dots> = 1 / 2 ^ 53"
      by (simp add: power_int_def divide_simps)
    also have "\<dots> \<le> 1 / of_nat n"
      using n53 npos by (simp add: frac_le)
    also have "\<dots> \<le> \<bar>of_int s\<bar> / of_nat n"
      using s1 npos by (simp add: divide_right_mono)
    also have "\<dots> = \<bar>of_int s / of_nat n\<bar>"
      by simp
    finally show ?thesis by (rule nearest_double_error)
qed

lemma nearest_double_integer_quotient:
  assumes n: "0 < n" and s: "\<bar>s\<bar> \<le> 2 ^ 53" and d: "int n dvd s"
  shows "nearest_double (of_int s / of_nat n) = of_int s / of_nat n"
proof -
  from d obtain k where k: "s = int n * k" ..
  have "\<bar>k\<bar> \<le> \<bar>int n\<bar> * \<bar>k\<bar>"
    using n by (simp add: mult_le_cancel_right1)
  also have "\<dots> = \<bar>s\<bar>" by (simp add: k abs_mult)
  finally have "\<bar>k\<bar> \<le> 2 ^ 53" using s by simp
  then have "nearest_double (of_int k) = of_int k"
    by (rule nearest_double_of_int)
  moreover have "(of_int s :: rat) / of_nat n = of_int k"
    using n by (simp add: k)
  ultimately show ?thesis by simp
qed

lemma filter_referenced:
  assumes "b \<in> set bs"
  shows "filter (\<lambda>r. book_id r = b_id b) (filter (\<lambda>r. book_id r \<in> b_id ` set bs) rs)
           = filter (\<lambda>r. book_id r = b_id b) rs"
  using assms by (induction rs) auto

lemma booksWithRatings_nth:
  assumes "i < length bs"
  shows "booksWithRatings bs rs ! i =
           book.extend (bs ! i)
             \<lparr>averageRating =
                (if filter (\<lambda>r. book_id r = b_id (bs ! i)) rs = [] then 0
                 else number_divide
                        (foldl (\<lambda>sum r. number_add sum (number_of_int (review.rating r))) 0
                           (filter (\<lambda>r. book_id r = b_id (bs ! i)) rs))
                        (number_of_int (int (length (filter (\<lambda>r. book_id r = b_id (bs ! i)) rs))))),
              reviewCount = length (filter (\<lambda>r. book_id r = b_id (bs ! i)) rs)\<rparr>"
  using assms by (simp add: booksWithRatings_def Let_def)

lemma averageRating_rounded_mean:
  assumes i: "i < length bs"
    and ne: "filter (\<lambda>r. book_id r = b_id (bs ! i)) rs \<noteq> []"
    and rb: "\<forall>r\<in>set (filter (\<lambda>r. book_id r = b_id (bs ! i)) rs). \<bar>review.rating r\<bar> \<le> b"
    and bn: "b * int (length (filter (\<lambda>r. book_id r = b_id (bs ! i)) rs)) \<le> 2 ^ 53"
  shows "averageRating (booksWithRatings bs rs ! i)
           = nearest_double
               (of_int (sum_list (map review.rating (filter (\<lambda>r. book_id r = b_id (bs ! i)) rs)))
                  / of_nat (length (filter (\<lambda>r. book_id r = b_id (bs ! i)) rs)))"
  by (simp add: booksWithRatings_nth [OF i] book.defs ne number_mean [OF ne rb bn])

lemma rounded_mean_error:
  assumes ne: "xs \<noteq> []"
    and rb: "\<forall>r\<in>set xs. \<bar>review.rating r\<bar> \<le> b"
    and bn: "b * int (length xs) \<le> 2 ^ 53"
  shows "\<bar>nearest_double (of_int (sum_list (map review.rating xs)) / of_nat (length xs))
            - of_int (sum_list (map review.rating xs)) / of_nat (length xs)\<bar>
           \<le> \<bar>of_int (sum_list (map review.rating xs)) / of_nat (length xs)\<bar> / 2 ^ 53"
    and "int (length xs) dvd sum_list (map review.rating xs) \<Longrightarrow>
           nearest_double (of_int (sum_list (map review.rating xs)) / of_nat (length xs))
             = of_int (sum_list (map review.rating xs)) / of_nat (length xs)"
proof -
  have n: "0 < length xs" using ne by simp
  have s: "\<bar>sum_list (map review.rating xs)\<bar> \<le> 2 ^ 53"
    using abs_sum_ratings [OF rb] bn by linarith
  have nn: "sum_list (map review.rating xs) = 0 \<or> int (length xs) \<le> 2 ^ 53"
    using length_ratings_bound [OF rb bn] by blast
  show "\<bar>nearest_double (of_int (sum_list (map review.rating xs)) / of_nat (length xs))
            - of_int (sum_list (map review.rating xs)) / of_nat (length xs)\<bar>
           \<le> \<bar>of_int (sum_list (map review.rating xs)) / of_nat (length xs)\<bar> / 2 ^ 53"
    by (rule nearest_double_quotient [OF n s nn])
  show "nearest_double (of_int (sum_list (map review.rating xs)) / of_nat (length xs))
             = of_int (sum_list (map review.rating xs)) / of_nat (length xs)"
    if "int (length xs) dvd sum_list (map review.rating xs)"
    using that by (rule nearest_double_integer_quotient [OF n s])
qed

text \<open>
  C1. For every list of books and every list of reviews, the aggregate of each book has
  \<open>reviewCount\<close> the number of reviews whose \<open>book_id\<close> is the book's id, and
  \<open>averageRating\<close> 0 when there is none. When there is one, and the ratings are at most
  \<open>b\<close> in absolute value with \<open>b\<close> times their number at most \<open>2\<^sup>5\<^sup>3\<close> (for ratings from 1
  to 5, up to \<open>2\<^sup>5\<^sup>0\<close> reviews), \<open>averageRating\<close> is the double nearest to the arithmetic
  mean of the ratings: it is within the relative error \<open>2\<^sup>-\<^sup>5\<^sup>3\<close> of the mean, and it is the
  mean itself when the number of ratings divides their sum. Reviews whose \<open>book_id\<close> is
  the id of no book of the input contribute to no aggregate: leaving them out gives the
  same result.
\<close>

theorem aggregation_count_and_rounded_mean:
  "(\<forall>i < length bs.
      let matching = filter (\<lambda>r. book_id r = b_id (bs ! i)) rs;
          mean = (of_int (sum_list (map review.rating matching)) / of_nat (length matching) :: rat);
          aggregate = booksWithRatings bs rs ! i
      in reviewCount aggregate = length matching
       \<and> (matching = [] \<longrightarrow> averageRating aggregate = 0)
       \<and> (matching \<noteq> [] \<and> (\<forall>r\<in>set matching. \<bar>review.rating r\<bar> \<le> b)
            \<and> b * int (length matching) \<le> 2 ^ 53 \<longrightarrow>
              averageRating aggregate = nearest_double mean
            \<and> \<bar>averageRating aggregate - mean\<bar> \<le> \<bar>mean\<bar> / 2 ^ 53
            \<and> (int (length matching) dvd sum_list (map review.rating matching) \<longrightarrow>
                 averageRating aggregate = mean)))
   \<and> booksWithRatings bs (filter (\<lambda>r. book_id r \<in> b_id ` set bs) rs) = booksWithRatings bs rs"
proof (intro conjI allI impI)
  fix i assume i: "i < length bs"
  define matching where "matching = filter (\<lambda>r. book_id r = b_id (bs ! i)) rs"
  define mean :: rat
    where "mean = of_int (sum_list (map review.rating matching)) / of_nat (length matching)"
  have count: "reviewCount (booksWithRatings bs rs ! i) = length matching"
    by (simp add: booksWithRatings_nth [OF i] book.defs matching_def)
  have none: "averageRating (booksWithRatings bs rs ! i) = 0" if "matching = []"
    using that by (simp add: booksWithRatings_nth [OF i] book.defs matching_def)
  have some: "averageRating (booksWithRatings bs rs ! i) = nearest_double mean
      \<and> \<bar>averageRating (booksWithRatings bs rs ! i) - mean\<bar> \<le> \<bar>mean\<bar> / 2 ^ 53
      \<and> (int (length matching) dvd sum_list (map review.rating matching) \<longrightarrow>
           averageRating (booksWithRatings bs rs ! i) = mean)"
    if ne: "matching \<noteq> []" and rb: "\<forall>r\<in>set matching. \<bar>review.rating r\<bar> \<le> b"
      and bn: "b * int (length matching) \<le> 2 ^ 53"
  proof -
    have avg: "averageRating (booksWithRatings bs rs ! i) = nearest_double mean"
      unfolding mean_def matching_def
      by (rule averageRating_rounded_mean [OF i]) (use ne rb bn in \<open>simp_all add: matching_def\<close>)
    show ?thesis
      unfolding avg mean_def
      using rounded_mean_error [OF ne rb bn] by blast
  qed
  show "let matching = filter (\<lambda>r. book_id r = b_id (bs ! i)) rs;
            mean = (of_int (sum_list (map review.rating matching)) / of_nat (length matching) :: rat);
            aggregate = booksWithRatings bs rs ! i
        in reviewCount aggregate = length matching
         \<and> (matching = [] \<longrightarrow> averageRating aggregate = 0)
         \<and> (matching \<noteq> [] \<and> (\<forall>r\<in>set matching. \<bar>review.rating r\<bar> \<le> b)
              \<and> b * int (length matching) \<le> 2 ^ 53 \<longrightarrow>
                averageRating aggregate = nearest_double mean
              \<and> \<bar>averageRating aggregate - mean\<bar> \<le> \<bar>mean\<bar> / 2 ^ 53
              \<and> (int (length matching) dvd sum_list (map review.rating matching) \<longrightarrow>
                   averageRating aggregate = mean))"
    unfolding Let_def
    using count none some unfolding matching_def mean_def by blast
next
  show "booksWithRatings bs (filter (\<lambda>r. book_id r \<in> b_id ` set bs) rs) = booksWithRatings bs rs"
    unfolding booksWithRatings_def
    by (rule map_cong [OF refl]) (simp only: filter_referenced)
qed

lemma sample_aggregates:
  "map review.rating (filter (\<lambda>r. book_id r = b_id (sample_books ! 0)) sample_reviews) = [4, 5]"
  "filter (\<lambda>r. book_id r = b_id (sample_books ! 1)) sample_reviews = []"
  "map review.rating (filter (\<lambda>r. book_id r = b_id (sample_books ! 2)) sample_reviews) = [3]"
  "length sample_books = 3"
  "nearest_double (9 / 2) = 9 / 2"
  "filter (\<lambda>r. book_id r \<in> b_id ` set sample_books) sample_reviews = take 3 sample_reviews"
  by code_simp+

theorem aggregation_count_and_rounded_mean_witness:
  "(0 :: nat) < length sample_books
   \<and> map review.rating (filter (\<lambda>r. book_id r = b_id (sample_books ! 0)) sample_reviews) = [4, 5]
   \<and> reviewCount (booksWithRatings sample_books sample_reviews ! 0) = 2
   \<and> averageRating (booksWithRatings sample_books sample_reviews ! 0) = 9 / 2
   \<and> filter (\<lambda>r. book_id r = b_id (sample_books ! 1)) sample_reviews = []
   \<and> averageRating (booksWithRatings sample_books sample_reviews ! 1) = 0
   \<and> map review.rating (filter (\<lambda>r. book_id r = b_id (sample_books ! 2)) sample_reviews) = [3]
   \<and> averageRating (booksWithRatings sample_books sample_reviews ! 2) = 3
   \<and> booksWithRatings sample_books (take 3 sample_reviews)
       = booksWithRatings sample_books sample_reviews"
proof -
  note agg = aggregation_count_and_rounded_mean [of sample_books sample_reviews 5, unfolded Let_def]
  note each = conjunct1 [OF agg, rule_format]
  have l0: "0 < length sample_books" and l1: "1 < length sample_books"
    and l2: "2 < length sample_books"
    by (simp_all add: sample_aggregates(4))
  let ?m0 = "filter (\<lambda>r. book_id r = b_id (sample_books ! 0)) sample_reviews"
  let ?m2 = "filter (\<lambda>r. book_id r = b_id (sample_books ! 2)) sample_reviews"
  have h0: "?m0 \<noteq> [] \<and> (\<forall>r\<in>set ?m0. \<bar>review.rating r\<bar> \<le> 5) \<and> 5 * int (length ?m0) \<le> 2 ^ 53"
    by code_simp
  have h2: "?m2 \<noteq> [] \<and> (\<forall>r\<in>set ?m2. \<bar>review.rating r\<bar> \<le> 5) \<and> 5 * int (length ?m2) \<le> 2 ^ 53"
    by code_simp
  have d2: "int (length ?m2) dvd sum_list (map review.rating ?m2)"
    by (simp add: sample_aggregates(3) length_map [of review.rating ?m2, symmetric]
          del: length_map)
  have c0: "reviewCount (booksWithRatings sample_books sample_reviews ! 0) = 2"
    using conjunct1 [OF each [OF l0]]
    by (simp add: sample_aggregates(1) length_map [of review.rating ?m0, symmetric]
          del: length_map)
  have a0: "averageRating (booksWithRatings sample_books sample_reviews ! 0) = 9 / 2"
    using conjunct1 [OF mp [OF conjunct2 [OF conjunct2 [OF each [OF l0]]] h0]]
    by (simp add: sample_aggregates(1,5) length_map [of review.rating ?m0, symmetric]
          del: length_map)
  have a1: "averageRating (booksWithRatings sample_books sample_reviews ! 1) = 0"
    by (rule mp [OF conjunct1 [OF conjunct2 [OF each [OF l1]]] sample_aggregates(2)])
  have a2: "averageRating (booksWithRatings sample_books sample_reviews ! 2) = 3"
    using mp [OF conjunct2 [OF conjunct2 [OF mp [OF conjunct2 [OF conjunct2 [OF each [OF l2]]] h2]]] d2]
    by (simp add: sample_aggregates(3) length_map [of review.rating ?m2, symmetric]
          del: length_map)
  have same: "booksWithRatings sample_books (take 3 sample_reviews)
                = booksWithRatings sample_books sample_reviews"
    using conjunct2 [OF agg] by (simp only: sample_aggregates(6))
  show ?thesis
    using l0 c0 a0 a1 a2 same sample_aggregates(1,2,3) by blast
qed

text \<open>
  Counterexample to the mean as stated: the second sample book has three reviews, with
  ratings 1, 2 and 2; the quotient of the numbers 5 and 3 is the double
  \<open>7505999378950827 / 2\<^sup>5\<^sup>2\<close>, which is not \<open>5 / 3\<close>.
\<close>

theorem aggregation_mean_counterexample:
  "map book_id sample_thirds = [''b2'', ''b2'', ''b2'']
   \<and> map review.rating sample_thirds = [1, 2, 2]
   \<and> b_id (sample_books ! 1) = ''b2''
   \<and> reviewCount (booksWithRatings sample_books sample_thirds ! 1) = 3
   \<and> averageRating (booksWithRatings sample_books sample_thirds ! 1)
       = 7505999378950827 / 4503599627370496
   \<and> averageRating (booksWithRatings sample_books sample_thirds ! 1) \<noteq> (1 + 2 + 2) / 3"
  by code_simp

text \<open>
  C10. The aggregation returns one record per input book, in the input order, and each
  record restricted to the fields of a book is the input book itself: the spread copies
  every field, and only \<open>averageRating\<close> and \<open>reviewCount\<close> are added.
\<close>

theorem aggregation_preserves_books:
  "length (booksWithRatings bs rs) = length bs
   \<and> map book.truncate (booksWithRatings bs rs) = bs"
proof
  show "length (booksWithRatings bs rs) = length bs"
    by (simp add: booksWithRatings_def)
  show "map book.truncate (booksWithRatings bs rs) = bs"
    by (simp add: booksWithRatings_def Let_def comp_def truncate_extend)
qed

theorem aggregation_preserves_books_witness:
  "map b_id (booksWithRatings sample_books sample_reviews) = [''b1'', ''b2'', ''b3'']
   \<and> map title (booksWithRatings sample_books sample_reviews)
       = [''The Midnight Library'', ''Circe'', ''The Alchemist'']"
proof -
  have "map b_id (map book.truncate (booksWithRatings sample_books sample_reviews))
          = map b_id sample_books"
    and "map title (map book.truncate (booksWithRatings sample_books sample_reviews))
          = map title sample_books"
    using aggregation_preserves_books [of sample_books sample_reviews] by simp_all
  then show ?thesis
    by (simp add: comp_def book.defs sample_books_def sample_book_def)
qed


section \<open>Properties of the pagination\<close>

lemma totalPages_div: "totalPages st = (int (length (filteredBooks st)) + 4) div 5"
proof -
  have "(of_nat (length (filteredBooks st)) :: rat) / of_int 5
          = of_int (int (length (filteredBooks st))) / of_int 5"
    by simp
  then have "totalPages st = - (- int (length (filteredBooks st)) div 5)"
    unfolding totalPages_def ITEMS_PER_PAGE_def
    by (simp only: ceiling_divide_eq_div)
  then show ?thesis by linarith
qed

lemma slice_page_length:
  assumes "1 \<le> p"
  shows "int (length (slice xs ((p - 1) * 5) (p * 5)))
           = max 0 (min 5 (int (length xs) - (p - 1) * 5))"
  using assms by (auto simp: slice_def Let_def min_def max_def)

lemma paginatedBooks_length:
  assumes "1 \<le> currentPage st"
  shows "int (length (paginatedBooks st))
           = max 0 (min 5 (int (length (filteredBooks st)) - (currentPage st - 1) * 5))"
  unfolding paginatedBooks_def ITEMS_PER_PAGE_def
  by (rule slice_page_length [OF assms])

lemma slice_page:
  assumes "1 \<le> p"
  shows "slice xs ((p - 1) * 5) (p * 5) = take 5 (drop (nat ((p - 1) * 5)) xs)"
  using assms by (auto simp: slice_def Let_def min_def)

text \<open>
  C2. For a filtered collection of \<open>n\<close> books the page reports
  \<open>totalPages = \<lceil>n / 5\<rceil>\<close>; on a page \<open>p\<close> from 1 on, the slice is the books of the
  collection from position \<open>(p - 1) * 5\<close> on, at most five of them; on a valid page, from
  1 to \<open>totalPages\<close>, it has exactly \<open>min 5 (n - (p - 1) * 5)\<close> books; on a positive page
  beyond \<open>totalPages\<close> it is empty. With 7 books there are 2 pages, of 5 and of 2 books.
\<close>

theorem pagination_page_sizes:
  "totalPages st = \<lceil>(of_nat (length (filteredBooks st)) :: rat) / 5\<rceil>
   \<and> totalPages st = (int (length (filteredBooks st)) + 4) div 5
   \<and> (1 \<le> currentPage st \<longrightarrow>
        paginatedBooks st
          = take 5 (drop (nat ((currentPage st - 1) * 5)) (filteredBooks st)))
   \<and> (1 \<le> currentPage st \<and> currentPage st \<le> totalPages st \<longrightarrow>
        int (length (paginatedBooks st))
          = min 5 (int (length (filteredBooks st)) - (currentPage st - 1) * 5))
   \<and> (0 < currentPage st \<and> totalPages st < currentPage st \<longrightarrow> paginatedBooks st = [])
   \<and> (length (filteredBooks st) = 7 \<longrightarrow>
        totalPages st = 2
        \<and> (currentPage st = 1 \<longrightarrow> length (paginatedBooks st) = 5)
        \<and> (currentPage st = 2 \<longrightarrow> length (paginatedBooks st) = 2))"
proof (intro conjI impI)
  show "totalPages st = \<lceil>(of_nat (length (filteredBooks st)) :: rat) / 5\<rceil>"
    by (simp add: totalPages_def ITEMS_PER_PAGE_def)
  show "totalPages st = (int (length (filteredBooks st)) + 4) div 5"
    by (rule totalPages_div)
next
  assume "1 \<le> currentPage st"
  then show "paginatedBooks st
          = take 5 (drop (nat ((currentPage st - 1) * 5)) (filteredBooks st))"
    unfolding paginatedBooks_def ITEMS_PER_PAGE_def by (rule slice_page)
next
  assume valid: "1 \<le> currentPage st \<and> currentPage st \<le> totalPages st"
  then have "(currentPage st - 1) * 5 < int (length (filteredBooks st))"
    unfolding totalPages_div by presburger
  with valid paginatedBooks_length [of st]
  show "int (length (paginatedBooks st))
          = min 5 (int (length (filteredBooks st)) - (currentPage st - 1) * 5)"
    by linarith
next
  assume beyond: "0 < currentPage st \<and> totalPages st < currentPage st"
  then have "int (length (filteredBooks st)) \<le> (currentPage st - 1) * 5"
    unfolding totalPages_div by presburger
  with beyond paginatedBooks_length [of st] have "int (length (paginatedBooks st)) = 0"
    by linarith
  then show "paginatedBooks st = []" by simp
next
  assume seven: "length (filteredBooks st) = 7"
  then show "totalPages st = 2"
    by (simp add: totalPages_div)
  { assume "currentPage st = 1"
    with seven paginatedBooks_length [of st] have "int (length (paginatedBooks st)) = 5"
      by simp
    then show "length (paginatedBooks st) = 5" by simp }
  { assume "currentPage st = 2"
    with seven paginatedBooks_length [of st] have "int (length (paginatedBooks st)) = 2"
      by simp
    then show "length (paginatedBooks st) = 2" by simp }
qed

theorem pagination_page_sizes_witness:
  "length (filteredBooks (seven_books 1)) = 7
   \<and> totalPages (seven_books 1) = 2
   \<and> (1 \<le> currentPage (seven_books 1) \<and> currentPage (seven_books 1) \<le> totalPages (seven_books 1))
   \<and> length (paginatedBooks (seven_books 1)) = 5
   \<and> (1 \<le> currentPage (seven_books 2) \<and> currentPage (seven_books 2) \<le> totalPages (seven_books 2))
   \<and> length (paginatedBooks (seven_books 2)) = 2
   \<and> (0 < currentPage (seven_books 3) \<and> totalPages (seven_books 3) < currentPage (seven_books 3))
   \<and> paginatedBooks (seven_books 3) = []"
  using pagination_page_sizes [of "seven_books 1"] pagination_page_sizes [of "seven_books 2"]
    pagination_page_sizes [of "seven_books 3"]
  by (simp add: seven_books_def)


section \<open>Properties of the view state\<close>

lemma currentPage_filterAndSortBooks:
  "currentPage (filterAndSortBooks lc cmp gt st) = 1"
  by (simp add: filterAndSortBooks_def Let_def)
text \<open>
  C9. After a change of \<open>searchTerm\<close>, of \<open>selectedGenre\<close> or of \<open>sortBy\<close> (the setter is
  called with a value other than the current one) \<open>currentPage\<close> is 1. Setting
  \<open>currentPage\<close> changes that field alone: the filtered and sorted collection stays as
  it was.
\<close>

theorem page_reset_on_filter_change:
  "(v \<noteq> searchTerm st \<longrightarrow> currentPage (dispatch lc cmp gt (SetSearchTerm v) st) = 1)
   \<and> (v \<noteq> selectedGenre st \<longrightarrow> currentPage (dispatch lc cmp gt (SetSelectedGenre v) st) = 1)
   \<and> (v \<noteq> sortBy st \<longrightarrow> currentPage (dispatch lc cmp gt (SetSortBy v) st) = 1)
   \<and> dispatch lc cmp gt (SetCurrentPage p) st = st\<lparr>currentPage := p\<rparr>
   \<and> filteredBooks (dispatch lc cmp gt (SetCurrentPage p) st) = filteredBooks st"
  by (simp add: dispatch_def currentPage_filterAndSortBooks)

theorem page_reset_on_filter_change_witness:
  "''circe'' \<noteq> searchTerm (sample_index [] ''all'' ''recent'')
   \<and> currentPage (sample_index [] ''all'' ''recent'') = 3
   \<and> currentPage (dispatch sample_toLowerCase sample_localeCompare sample_getTime
        (SetSearchTerm ''circe'') (sample_index [] ''all'' ''recent'')) = 1
   \<and> ''Fantasy'' \<noteq> selectedGenre (sample_index [] ''all'' ''recent'')
   \<and> currentPage (dispatch sample_toLowerCase sample_localeCompare sample_getTime
        (SetSelectedGenre ''Fantasy'') (sample_index [] ''all'' ''recent'')) = 1
   \<and> ''title'' \<noteq> sortBy (sample_index [] ''all'' ''recent'')
   \<and> currentPage (dispatch sample_toLowerCase sample_localeCompare sample_getTime
        (SetSortBy ''title'') (sample_index [] ''all'' ''recent'')) = 1
   \<and> filteredBooks (dispatch sample_toLowerCase sample_localeCompare sample_getTime
        (SetCurrentPage 2) (sample_index [] ''all'' ''recent''))
       = filteredBooks (sample_index [] ''all'' ''recent'')"
  using page_reset_on_filter_change
    [of "''circe''" "sample_index [] ''all'' ''recent''" sample_toLowerCase
        sample_localeCompare sample_getTime]
    page_reset_on_filter_change
    [of "''Fantasy''" "sample_index [] ''all'' ''recent''" sample_toLowerCase
        sample_localeCompare sample_getTime 2]
    page_reset_on_filter_change
    [of "''title''" "sample_index [] ''all'' ''recent''" sample_toLowerCase
        sample_localeCompare sample_getTime]
  by (simp add: sample_index_def)


section \<open>Properties of the filter and of the sort\<close>

lemma mset_insert_by: "mset (insert_by c x xs) = add_mset x (mset xs)"
  by (induction xs) simp_all

lemma mset_sort_array: "mset (sort_array c xs) = mset xs"
  by (induction xs) (simp_all add: mset_insert_by)

lemma set_sort_array: "set (sort_array c xs) = set xs"
  by (rule mset_eq_setD) (rule mset_sort_array)

lemma set_insert_by: "set (insert_by c x xs) = insert x (set xs)"
  by (induction xs) auto

lemma sorted_wrt_insert_by:
  assumes tot: "\<And>a b. a \<in> A \<Longrightarrow> b \<in> A \<Longrightarrow> \<not> c a b \<le> 0 \<Longrightarrow> c b a \<le> 0"
    and trans: "\<And>a b d. a \<in> A \<Longrightarrow> b \<in> A \<Longrightarrow> d \<in> A \<Longrightarrow> c a b \<le> 0 \<Longrightarrow> c b d \<le> 0 \<Longrightarrow> c a d \<le> 0"
    and "x \<in> A" and "set xs \<subseteq> A" and "sorted_wrt (\<lambda>a b. c a b \<le> 0) xs"
  shows "sorted_wrt (\<lambda>a b. c a b \<le> 0) (insert_by c x xs)"
  using assms(3-)
proof (induction xs)
  case Nil
  then show ?case by simp
next
  case (Cons y ys)
  show ?case
  proof (cases "c x y \<le> 0")
    case True
    have "c x z \<le> 0" if "z \<in> set ys" for z
    proof (rule trans [of x y z])
      show "x \<in> A" "y \<in> A" "z \<in> A" using Cons.prems that by auto
      show "c x y \<le> 0" by (rule True)
      show "c y z \<le> 0" using Cons.prems that by simp
    qed
    with True Cons.prems show ?thesis by simp
  next
    case False
    have "c y x \<le> 0"
    proof (rule tot [of x y])
      show "x \<in> A" "y \<in> A" using Cons.prems by auto
      show "\<not> c x y \<le> 0" by (rule False)
    qed
    moreover have "sorted_wrt (\<lambda>a b. c a b \<le> 0) (insert_by c x ys)"
      using Cons by simp
    ultimately show ?thesis
      using False Cons.prems by (simp add: set_insert_by)
  qed
qed

lemma sorted_wrt_sort_array:
  assumes tot: "\<And>a b. a \<in> A \<Longrightarrow> b \<in> A \<Longrightarrow> \<not> c a b \<le> 0 \<Longrightarrow> c b a \<le> 0"
    and trans: "\<And>a b d. a \<in> A \<Longrightarrow> b \<in> A \<Longrightarrow> d \<in> A \<Longrightarrow> c a b \<le> 0 \<Longrightarrow> c b d \<le> 0 \<Longrightarrow> c a d \<le> 0"
    and "set xs \<subseteq> A"
  shows "sorted_wrt (\<lambda>a b. c a b \<le> 0) (sort_array c xs)"
  using assms(3)
proof (induction xs)
  case Nil
  then show ?case by simp
next
  case (Cons x xs)
  have x: "x \<in> A" and sub: "set (sort_array c xs) \<subseteq> A"
    using Cons.prems by (simp_all add: set_sort_array)
  have "sorted_wrt (\<lambda>a b. c a b \<le> 0) (insert_by c x (sort_array c xs))"
  proof (rule sorted_wrt_insert_by [where A = A])
    show "c b a \<le> 0" if "a \<in> A" "b \<in> A" "\<not> c a b \<le> 0" for a b
      using that by (rule tot)
    show "c a d \<le> 0" if "a \<in> A" "b \<in> A" "d \<in> A" "c a b \<le> 0" "c b d \<le> 0" for a b d
      using that by (rule trans)
    show "x \<in> A" by (rule x)
    show "set (sort_array c xs) \<subseteq> A" by (rule sub)
    show "sorted_wrt (\<lambda>a b. c a b \<le> 0) (sort_array c xs)"
      using Cons by simp
  qed
  then show ?case by simp
qed


lemma filteredBooks_filterAndSortBooks:
  "filteredBooks (filterAndSortBooks lc cmp gt st) =
     sort_array (compareBooks cmp gt (sortBy st))
       (filter (\<lambda>b. (searchTerm st = []
                      \<or> str_includes (lc (title b)) (lc (searchTerm st))
                      \<or> str_includes (lc (author b)) (lc (searchTerm st)))
                   \<and> (selectedGenre st = ''all'' \<or> genre b = selectedGenre st))
          (books st))"
  by (auto simp: filterAndSortBooks_def Let_def intro: filter_cong)


lemma str_includes_iff: "str_includes s t = (\<exists>pre post. s = pre @ t @ post)"
  by (simp add: str_includes_def sublist_def)
text \<open>
  C3. Every book of the filtered result is a book of the collection; when the search
  term is not empty, the lower-cased search term occurs in its lower-cased title or in
  its lower-cased author; when the selected genre is not \<^verbatim>\<open>"all"\<close>, its genre is the
  selected one. An empty search term passes every book (the result holds exactly the
  books that pass the genre filter), and so does \<^verbatim>\<open>"all"\<close> (the result holds exactly the
  books that pass the search filter).
\<close>

theorem filtered_books_match:
  "(\<forall>b \<in> set (filteredBooks (filterAndSortBooks toLowerCase localeCompare getTime st)).
      b \<in> set (books st)
      \<and> (searchTerm st \<noteq> [] \<longrightarrow>
           (\<exists>pre post. toLowerCase (title b) = pre @ toLowerCase (searchTerm st) @ post)
           \<or> (\<exists>pre post. toLowerCase (author b) = pre @ toLowerCase (searchTerm st) @ post))
      \<and> (selectedGenre st \<noteq> ''all'' \<longrightarrow> genre b = selectedGenre st))
   \<and> (searchTerm st = [] \<longrightarrow>
        mset (filteredBooks (filterAndSortBooks toLowerCase localeCompare getTime st))
          = mset (filter (\<lambda>b. selectedGenre st = ''all'' \<or> genre b = selectedGenre st)
                    (books st)))
   \<and> (selectedGenre st = ''all'' \<longrightarrow>
        mset (filteredBooks (filterAndSortBooks toLowerCase localeCompare getTime st))
          = mset (filter (\<lambda>b. searchTerm st = []
                              \<or> (\<exists>pre post. toLowerCase (title b)
                                     = pre @ toLowerCase (searchTerm st) @ post)
                              \<or> (\<exists>pre post. toLowerCase (author b)
                                     = pre @ toLowerCase (searchTerm st) @ post))
                    (books st)))"
  by (simp add: filteredBooks_filterAndSortBooks set_sort_array mset_sort_array
        str_includes_iff) blast

lemma sample_filtered:
  "map b_id (filteredBooks (filterAndSortBooks sample_toLowerCase sample_localeCompare
       sample_getTime (sample_index ''MI'' ''Fiction'' ''title''))) = [''b3'', ''b1'']"
  by code_simp

theorem filtered_books_match_witness:
  "(let st = sample_index ''MI'' ''Fiction'' ''title'';
        b = hd (filteredBooks (filterAndSortBooks sample_toLowerCase sample_localeCompare
                  sample_getTime st))
    in b \<in> set (filteredBooks (filterAndSortBooks sample_toLowerCase sample_localeCompare
                  sample_getTime st))
       \<and> searchTerm st \<noteq> [] \<and> selectedGenre st \<noteq> ''all''
       \<and> b \<in> set (books st)
       \<and> ((\<exists>pre post. sample_toLowerCase (title b) = pre @ ''mi'' @ post)
            \<or> (\<exists>pre post. sample_toLowerCase (author b) = pre @ ''mi'' @ post))
       \<and> genre b = ''Fiction'')
   \<and> (let st = sample_index [] ''all'' ''title''
      in searchTerm st = [] \<and> selectedGenre st = ''all''
         \<and> mset (filteredBooks (filterAndSortBooks sample_toLowerCase sample_localeCompare
                    sample_getTime st))
             = mset (books st))"
proof -
  let ?st = "sample_index ''MI'' ''Fiction'' ''title''"
  let ?R = "filteredBooks (filterAndSortBooks sample_toLowerCase sample_localeCompare
                  sample_getTime ?st)"
  have "?R \<noteq> []"
    using sample_filtered by auto
  then have mem: "hd ?R \<in> set ?R"
    by simp
  have st: "searchTerm ?st = ''MI''" "selectedGenre ?st = ''Fiction''"
    by (simp_all add: sample_index_def)
  have lower: "sample_toLowerCase ''MI'' = ''mi''"
    by code_simp
  have "\<forall>b \<in> set ?R.
      b \<in> set (books ?st)
      \<and> (searchTerm ?st \<noteq> [] \<longrightarrow>
           (\<exists>pre post. sample_toLowerCase (title b) = pre @ sample_toLowerCase (searchTerm ?st) @ post)
           \<or> (\<exists>pre post. sample_toLowerCase (author b) = pre @ sample_toLowerCase (searchTerm ?st) @ post))
      \<and> (selectedGenre ?st \<noteq> ''all'' \<longrightarrow> genre b = selectedGenre ?st)"
    by (rule conjunct1 [OF filtered_books_match])
  then have "hd ?R \<in> set (books ?st)
      \<and> (searchTerm ?st \<noteq> [] \<longrightarrow>
           (\<exists>pre post. sample_toLowerCase (title (hd ?R)) = pre @ sample_toLowerCase (searchTerm ?st) @ post)
           \<or> (\<exists>pre post. sample_toLowerCase (author (hd ?R)) = pre @ sample_toLowerCase (searchTerm ?st) @ post))
      \<and> (selectedGenre ?st \<noteq> ''all'' \<longrightarrow> genre (hd ?R) = selectedGenre ?st)"
    using mem by (rule bspec)
  then have first: "hd ?R \<in> set (books ?st)
       \<and> ((\<exists>pre post. sample_toLowerCase (title (hd ?R)) = pre @ ''mi'' @ post)
            \<or> (\<exists>pre post. sample_toLowerCase (author (hd ?R)) = pre @ ''mi'' @ post))
       \<and> genre (hd ?R) = ''Fiction''"
    unfolding st lower by simp
  let ?st' = "sample_index [] ''all'' ''title''"
  have st': "searchTerm ?st' = []" "selectedGenre ?st' = ''all''"
    by (simp_all add: sample_index_def)
  have second: "mset (filteredBooks (filterAndSortBooks sample_toLowerCase sample_localeCompare
                    sample_getTime ?st')) = mset (books ?st')"
    using filtered_books_match [of sample_toLowerCase sample_localeCompare sample_getTime ?st']
      st' by simp
  show ?thesis
    unfolding Let_def using mem st first st' second by simp
qed

lemma sorted_by_comparator:
  assumes "\<And>a b. (c a b \<le> 0) = (key b \<le> (key a :: 'k :: linorder))"
  shows "sorted_wrt (\<lambda>a b. key b \<le> key a) (sort_array c xs)"
proof -
  have "sorted_wrt (\<lambda>a b. c a b \<le> 0) (sort_array c xs)"
  proof (rule sorted_wrt_sort_array [where A = UNIV])
    show "c b a \<le> 0" if "\<not> c a b \<le> 0" for a b
      using that by (simp add: assms)
    show "c a d \<le> 0" if "c a b \<le> 0" "c b d \<le> 0" for a b d
      using that by (simp add: assms)
  qed simp
  then show ?thesis by (simp add: assms)
qed
text \<open>
  C4. The result of \<^verbatim>\<open>filterAndSortBooks\<close> is a rearrangement of the books that pass
  the two filters: the same books, each as often as the collection has it. It is
  non-increasing on \<open>averageRating\<close> for the key \<^verbatim>\<open>rating\<close>, on \<open>published_year\<close> for
  \<^verbatim>\<open>year\<close>, and on the creation time for \<^verbatim>\<open>recent\<close> (and any key other than the three
  named in the \<^verbatim>\<open>switch\<close>). For the key \<^verbatim>\<open>title\<close> it is non-decreasing in the order of
  \<open>localeCompare\<close>, that function being an order on the titles of the collection: total
  and transitive.
\<close>

theorem sorted_by_key:
  "mset (filteredBooks (filterAndSortBooks toLowerCase localeCompare getTime st))
     = mset (filter (\<lambda>b. (searchTerm st = []
                            \<or> str_includes (toLowerCase (title b)) (toLowerCase (searchTerm st))
                            \<or> str_includes (toLowerCase (author b)) (toLowerCase (searchTerm st)))
                         \<and> (selectedGenre st = ''all'' \<or> genre b = selectedGenre st))
                (books st))
   \<and> (sortBy st = ''rating'' \<longrightarrow>
      sorted_wrt (\<lambda>a b. averageRating b \<le> averageRating a)
        (filteredBooks (filterAndSortBooks toLowerCase localeCompare getTime st)))
   \<and> (sortBy st = ''year'' \<longrightarrow>
      sorted_wrt (\<lambda>a b. published_year b \<le> published_year a)
        (filteredBooks (filterAndSortBooks toLowerCase localeCompare getTime st)))
   \<and> (sortBy st \<notin> {''rating'', ''year'', ''title''} \<longrightarrow>
      sorted_wrt (\<lambda>a b. getTime (book.created_at b) \<le> getTime (book.created_at a))
        (filteredBooks (filterAndSortBooks toLowerCase localeCompare getTime st)))
   \<and> (sortBy st = ''title''
       \<and> (\<forall>a \<in> set (books st). \<forall>b \<in> set (books st).
             \<not> localeCompare (title a) (title b) \<le> 0 \<longrightarrow> localeCompare (title b) (title a) \<le> 0)
       \<and> (\<forall>a \<in> set (books st). \<forall>b \<in> set (books st). \<forall>d \<in> set (books st).
             localeCompare (title a) (title b) \<le> 0 \<and> localeCompare (title b) (title d) \<le> 0
               \<longrightarrow> localeCompare (title a) (title d) \<le> 0)
       \<longrightarrow>
      sorted_wrt (\<lambda>a b. localeCompare (title a) (title b) \<le> 0)
        (filteredBooks (filterAndSortBooks toLowerCase localeCompare getTime st)))"
proof (intro conjI impI)
  show "mset (filteredBooks (filterAndSortBooks toLowerCase localeCompare getTime st))
     = mset (filter (\<lambda>b. (searchTerm st = []
                            \<or> str_includes (toLowerCase (title b)) (toLowerCase (searchTerm st))
                            \<or> str_includes (toLowerCase (author b)) (toLowerCase (searchTerm st)))
                         \<and> (selectedGenre st = ''all'' \<or> genre b = selectedGenre st))
                (books st))"
    unfolding filteredBooks_filterAndSortBooks by (rule mset_sort_array)
next
  assume "sortBy st = ''rating''"
  then show "sorted_wrt (\<lambda>a b. averageRating b \<le> averageRating a)
        (filteredBooks (filterAndSortBooks toLowerCase localeCompare getTime st))"
    unfolding filteredBooks_filterAndSortBooks
    by (intro sorted_by_comparator) (simp add: compareBooks_def)
next
  assume "sortBy st = ''year''"
  then show "sorted_wrt (\<lambda>a b. published_year b \<le> published_year a)
        (filteredBooks (filterAndSortBooks toLowerCase localeCompare getTime st))"
    unfolding filteredBooks_filterAndSortBooks
    by (intro sorted_by_comparator) (simp add: compareBooks_def)
next
  assume "sortBy st \<notin> {''rating'', ''year'', ''title''}"
  then show "sorted_wrt (\<lambda>a b. getTime (book.created_at b) \<le> getTime (book.created_at a))
        (filteredBooks (filterAndSortBooks toLowerCase localeCompare getTime st))"
    unfolding filteredBooks_filterAndSortBooks
    by (intro sorted_by_comparator) (simp add: compareBooks_def)
next
  assume h: "sortBy st = ''title''
       \<and> (\<forall>a \<in> set (books st). \<forall>b \<in> set (books st).
             \<not> localeCompare (title a) (title b) \<le> 0 \<longrightarrow> localeCompare (title b) (title a) \<le> 0)
       \<and> (\<forall>a \<in> set (books st). \<forall>b \<in> set (books st). \<forall>d \<in> set (books st).
             localeCompare (title a) (title b) \<le> 0 \<and> localeCompare (title b) (title d) \<le> 0
               \<longrightarrow> localeCompare (title a) (title d) \<le> 0)"
  have c: "(compareBooks localeCompare getTime (sortBy st) a b \<le> 0)
             = (localeCompare (title a) (title b) \<le> 0)" for a b
    using h by (simp add: compareBooks_def)
  have "sorted_wrt (\<lambda>a b. compareBooks localeCompare getTime (sortBy st) a b \<le> 0)
          (filteredBooks (filterAndSortBooks toLowerCase localeCompare getTime st))"
    unfolding filteredBooks_filterAndSortBooks
  proof (rule sorted_wrt_sort_array [where A = "set (books st)"])
    show "compareBooks localeCompare getTime (sortBy st) b a \<le> 0"
      if "a \<in> set (books st)" "b \<in> set (books st)"
         "\<not> compareBooks localeCompare getTime (sortBy st) a b \<le> 0" for a b
      using that h unfolding c by blast
    show "compareBooks localeCompare getTime (sortBy st) a d \<le> 0"
      if "a \<in> set (books st)" "b \<in> set (books st)" "d \<in> set (books st)"
         "compareBooks localeCompare getTime (sortBy st) a b \<le> 0"
         "compareBooks localeCompare getTime (sortBy st) b d \<le> 0" for a b d
      using that h unfolding c by blast
  qed simp
  then show "sorted_wrt (\<lambda>a b. localeCompare (title a) (title b) \<le> 0)
        (filteredBooks (filterAndSortBooks toLowerCase localeCompare getTime st))"
    unfolding c .
qed

lemma sample_title_order:
  "(\<forall>a \<in> set (books (sample_index [] ''all'' ''title'')).
      \<forall>b \<in> set (books (sample_index [] ''all'' ''title'')).
        \<not> sample_localeCompare (title a) (title b) \<le> 0
          \<longrightarrow> sample_localeCompare (title b) (title a) \<le> 0)
   \<and> (\<forall>a \<in> set (books (sample_index [] ''all'' ''title'')).
      \<forall>b \<in> set (books (sample_index [] ''all'' ''title'')).
      \<forall>d \<in> set (books (sample_index [] ''all'' ''title'')).
        sample_localeCompare (title a) (title b) \<le> 0
          \<and> sample_localeCompare (title b) (title d) \<le> 0
          \<longrightarrow> sample_localeCompare (title a) (title d) \<le> 0)"
  by code_simp

lemma sample_sorted:
  "map title (filteredBooks (filterAndSortBooks sample_toLowerCase sample_localeCompare
     sample_getTime (sample_index [] ''all'' ''rating'')))
     = [''The Midnight Library'', ''The Alchemist'', ''Circe'']"
  "map title (filteredBooks (filterAndSortBooks sample_toLowerCase sample_localeCompare
     sample_getTime (sample_index [] ''all'' ''title'')))
     = [''Circe'', ''The Alchemist'', ''The Midnight Library'']"
  "map title (books (sample_index [] ''all'' ''rating''))
     = [''The Midnight Library'', ''Circe'', ''The Alchemist'']"
  by code_simp+

lemma sample_unfiltered:
  "filter (\<lambda>b. (searchTerm (sample_index [] ''all'' key) = []
                  \<or> str_includes (lc (title b)) (lc (searchTerm (sample_index [] ''all'' key)))
                  \<or> str_includes (lc (author b)) (lc (searchTerm (sample_index [] ''all'' key))))
               \<and> (selectedGenre (sample_index [] ''all'' key) = ''all''
                    \<or> genre b = selectedGenre (sample_index [] ''all'' key)))
     (books (sample_index [] ''all'' key))
     = books (sample_index [] ''all'' key)"
  by (simp add: sample_index_def)

theorem sorted_by_key_witness:
  "mset (filteredBooks (filterAndSortBooks sample_toLowerCase sample_localeCompare
           sample_getTime (sample_index [] ''all'' ''rating'')))
     = mset (books (sample_index [] ''all'' ''rating''))
   \<and> map title (books (sample_index [] ''all'' ''rating''))
       = [''The Midnight Library'', ''Circe'', ''The Alchemist'']
   \<and> map title (filteredBooks (filterAndSortBooks sample_toLowerCase sample_localeCompare
           sample_getTime (sample_index [] ''all'' ''rating'')))
       = [''The Midnight Library'', ''The Alchemist'', ''Circe'']
   \<and> map title (filteredBooks (filterAndSortBooks sample_toLowerCase sample_localeCompare
           sample_getTime (sample_index [] ''all'' ''title'')))
       = [''Circe'', ''The Alchemist'', ''The Midnight Library'']
   \<and> sortBy (sample_index [] ''all'' ''rating'') = ''rating''
   \<and> sorted_wrt (\<lambda>a b. averageRating b \<le> averageRating a)
        (filteredBooks (filterAndSortBooks sample_toLowerCase sample_localeCompare
           sample_getTime (sample_index [] ''all'' ''rating'')))
   \<and> sortBy (sample_index [] ''all'' ''year'') = ''year''
   \<and> sorted_wrt (\<lambda>a b. published_year b \<le> published_year a)
        (filteredBooks (filterAndSortBooks sample_toLowerCase sample_localeCompare
           sample_getTime (sample_index [] ''all'' ''year'')))
   \<and> sortBy (sample_index [] ''all'' ''recent'') \<notin> {''rating'', ''year'', ''title''}
   \<and> sorted_wrt (\<lambda>a b. sample_getTime (book.created_at b) \<le> sample_getTime (book.created_at a))
        (filteredBooks (filterAndSortBooks sample_toLowerCase sample_localeCompare
           sample_getTime (sample_index [] ''all'' ''recent'')))
   \<and> sortBy (sample_index [] ''all'' ''title'') = ''title''
   \<and> sorted_wrt (\<lambda>a b. sample_localeCompare (title a) (title b) \<le> 0)
        (filteredBooks (filterAndSortBooks sample_toLowerCase sample_localeCompare
           sample_getTime (sample_index [] ''all'' ''title'')))"
proof -
  have keys: "sortBy (sample_index [] ''all'' ''rating'') = ''rating''"
    "sortBy (sample_index [] ''all'' ''year'') = ''year''"
    "sortBy (sample_index [] ''all'' ''recent'') \<notin> {''rating'', ''year'', ''title''}"
    "sortBy (sample_index [] ''all'' ''title'') = ''title''"
    by (simp_all add: sample_index_def)
  note r = sorted_by_key [of sample_toLowerCase sample_localeCompare sample_getTime
        "sample_index [] ''all'' ''rating''"]
  note y = sorted_by_key [of sample_toLowerCase sample_localeCompare sample_getTime
        "sample_index [] ''all'' ''year''"]
  note c = sorted_by_key [of sample_toLowerCase sample_localeCompare sample_getTime
        "sample_index [] ''all'' ''recent''"]
  note t = sorted_by_key [of sample_toLowerCase sample_localeCompare sample_getTime
        "sample_index [] ''all'' ''title''"]
  show ?thesis
  proof (intro conjI)
    show "mset (filteredBooks (filterAndSortBooks sample_toLowerCase sample_localeCompare
           sample_getTime (sample_index [] ''all'' ''rating'')))
     = mset (books (sample_index [] ''all'' ''rating''))"
      using conjunct1 [OF r] by (simp only: sample_unfiltered)
    show "sorted_wrt (\<lambda>a b. averageRating b \<le> averageRating a)
        (filteredBooks (filterAndSortBooks sample_toLowerCase sample_localeCompare
           sample_getTime (sample_index [] ''all'' ''rating'')))"
      by (rule mp [OF conjunct1 [OF conjunct2 [OF r]] keys(1)])
    show "sorted_wrt (\<lambda>a b. published_year b \<le> published_year a)
        (filteredBooks (filterAndSortBooks sample_toLowerCase sample_localeCompare
           sample_getTime (sample_index [] ''all'' ''year'')))"
      by (rule mp [OF conjunct1 [OF conjunct2 [OF conjunct2 [OF y]]] keys(2)])
    show "sorted_wrt (\<lambda>a b. sample_getTime (book.created_at b) \<le> sample_getTime (book.created_at a))
        (filteredBooks (filterAndSortBooks sample_toLowerCase sample_localeCompare
           sample_getTime (sample_index [] ''all'' ''recent'')))"
      by (rule mp [OF conjunct1 [OF conjunct2 [OF conjunct2 [OF conjunct2 [OF c]]]] keys(3)])
    show "sorted_wrt (\<lambda>a b. sample_localeCompare (title a) (title b) \<le> 0)
        (filteredBooks (filterAndSortBooks sample_toLowerCase sample_localeCompare
           sample_getTime (sample_index [] ''all'' ''title'')))"
      by (rule mp [OF conjunct2 [OF conjunct2 [OF conjunct2 [OF conjunct2 [OF t]]]]
                     conjI [OF keys(4) sample_title_order]])
  qed (rule keys sample_sorted)+
qed


section \<open>Properties of the rendered rating\<close>

lemma decimal_digit: "n < 10 \<Longrightarrow> decimal n = [''0123456789'' ! n]"
  by (simp add: decimal.simps)

lemma sum_ratings_bounds:
  assumes "\<forall>r \<in> set rs. 1 \<le> review.rating r \<and> review.rating r \<le> 5"
  shows "int (length rs) \<le> sum_list (map review.rating rs)
         \<and> sum_list (map review.rating rs) \<le> 5 * int (length rs)"
  using assms by (induction rs) auto

lemma mean_bounds:
  assumes "rs \<noteq> []" and "\<forall>r \<in> set rs. 1 \<le> review.rating r \<and> review.rating r \<le> 5"
  shows "1 \<le> (of_int (sum_list (map review.rating rs)) :: rat) / of_nat (length rs)
         \<and> (of_int (sum_list (map review.rating rs)) :: rat) / of_nat (length rs) \<le> 5"
proof -
  have pos: "(0 :: rat) < of_nat (length rs)"
    using assms(1) by simp
  have "(of_nat (length rs) :: rat) \<le> of_int (sum_list (map review.rating rs))"
    using sum_ratings_bounds [OF assms(2)]
    by (metis of_int_le_iff of_int_of_nat_eq)
  moreover have "(of_int (sum_list (map review.rating rs)) :: rat) \<le> 5 * of_nat (length rs)"
  proof -
    have "(of_int (sum_list (map review.rating rs)) :: rat) \<le> of_int (5 * int (length rs))"
      using sum_ratings_bounds [OF assms(2)] by (simp only: of_int_le_iff)
    then show ?thesis by simp
  qed
  ultimately show ?thesis
    using pos by (simp add: pos_le_divide_eq pos_divide_le_eq)
qed

lemma toFixed1_rounds:
  assumes "1 \<le> x" and "x \<le> 5"
  shows "\<exists>n :: nat. 10 \<le> n \<and> n \<le> 50 \<and> \<bar>of_nat n / 10 - x\<bar> \<le> 1 / 20
           \<and> toFixed1 x = [''0123456789'' ! (n div 10), CHR ''.'', ''0123456789'' ! (n mod 10)]"
proof -
  define k where "k = \<lfloor>x * 10 + 1 / 2\<rfloor>"
  have lo: "of_int k \<le> x * 10 + 1 / 2" and hi: "x * 10 + 1 / 2 < of_int k + 1"
    unfolding k_def by linarith+
  have "(10 :: rat) \<le> x * 10 + 1 / 2" using assms by simp
  then have k10: "10 \<le> k" unfolding k_def by (simp add: le_floor_iff)
  have "x * 10 + 1 / 2 < 51" using assms by simp
  then have k50: "k \<le> 50" unfolding k_def by (simp add: floor_less_iff)
  define n where "n = nat k"
  have nk: "int n = k" using k10 by (simp add: n_def)
  then have on: "(of_nat n :: rat) = of_int k"
    by (metis of_int_of_nat_eq)
  have n10: "10 \<le> n" and n50: "n \<le> 50" using k10 k50 nk by linarith+
  have close: "\<bar>of_nat n / 10 - x\<bar> \<le> 1 / 20"
    using lo hi unfolding on by linarith
  have "n div 10 < 10" "n mod 10 < 10" using n50 by simp_all
  then have "toFixed1 x = [''0123456789'' ! (n div 10), CHR ''.'', ''0123456789'' ! (n mod 10)]"
    using assms by (simp add: toFixed1_def Let_def n_def k_def decimal_digit)
  with n10 n50 close show ?thesis by blast
qed


lemma BookCard_rating_positive: "0 < x \<Longrightarrow> BookCard_rating (Some x) = toFixed1 x"
  by (simp add: BookCard_rating_def)

text \<open>
  A tenth that is nearest to the double is nearest to the mean as well: the mean of \<open>c\<close>
  integers is a multiple of \<open>1 / c\<close>, so that it is at a tie or at least \<open>1 / (20 * c)\<close> away
  from one, further than the rounding of the division moves it.
\<close>

lemma tenths_of_mean:
  fixes d :: rat and s :: int and c n :: nat
  assumes c0: "0 < c" and c32: "c < 2 ^ 32"
    and d: "\<bar>d - of_int s / of_nat c\<bar> \<le> 5 / 2 ^ 53"
    and n: "\<bar>of_nat n / 10 - d\<bar> \<le> 1 / 20"
  shows "\<bar>of_nat n / 10 - of_int s / of_nat c\<bar> \<le> (1 / 20 :: rat)"
proof -
  define m :: rat where "m = of_int s / of_nat c"
  have cpos: "(0::rat) < of_nat c" using c0 by simp
  have "int c < 2 ^ 32" using c32 by (metis of_nat_less_iff of_nat_numeral of_nat_power)
  then have "int c \<le> 2 ^ 32 - 1" by simp
  then have "(of_int (int c) :: rat) \<le> of_int (2 ^ 32 - 1)" by (simp only: of_int_le_iff)
  then have cle: "(of_nat c :: rat) \<le> 4294967295" by simp
  have gap: "(5 :: rat) / 2 ^ 53 < 1 / (20 * of_nat c)"
  proof -
    have "(5 :: rat) / 2 ^ 53 < 1 / (20 * 4294967295)" by simp
    also have "\<dots> \<le> 1 / (20 * of_nat c)"
      using cle cpos by (simp add: frac_le)
    finally show ?thesis .
  qed
  have small: "x \<le> 0" if eq: "x = of_int a / (20 * of_nat c)" and le: "x \<le> 5 / 2 ^ 53"
    for x :: rat and a :: int
  proof (rule ccontr)
    assume "\<not> x \<le> 0"
    then have "0 < of_int a / (20 * of_nat c :: rat)" using eq by simp
    then have "(0::rat) < of_int a" using cpos by (simp add: zero_less_divide_iff)
    then have "1 \<le> a" by simp
    then have "(1::rat) \<le> of_int a" by simp
    then have "1 / (20 * of_nat c) \<le> (of_int a :: rat) / (20 * of_nat c)"
      using cpos by (simp add: divide_right_mono)
    with gap eq le show False by linarith
  qed
  have hi: "of_nat n / 10 - m - 1 / 20 \<le> 0"
  proof (rule small)
    show "of_nat n / 10 - m - 1 / 20
            = of_int ((2 * int n - 1) * int c - 20 * s) / (20 * of_nat c)"
      using cpos by (simp add: m_def field_simps)
    show "of_nat n / 10 - m - 1 / 20 \<le> 5 / 2 ^ 53"
      using d n unfolding m_def by linarith
  qed
  have lo: "m - of_nat n / 10 - 1 / 20 \<le> 0"
  proof (rule small)
    show "m - of_nat n / 10 - 1 / 20
            = of_int (20 * s - (2 * int n + 1) * int c) / (20 * of_nat c)"
      using cpos by (simp add: m_def field_simps)
    show "m - of_nat n / 10 - 1 / 20 \<le> 5 / 2 ^ 53"
      using d n unfolding m_def by linarith
  qed
  from hi lo show ?thesis unfolding m_def by linarith
qed

text \<open>
  The average of fewer than \<open>2\<^sup>3\<^sup>2\<close> ratings from 1 to 5, as the pages compute it: a
  number from 1 to 5 that prints as the tenth nearest to the mean.
\<close>

lemma average_tenths:
  assumes ne: "xs \<noteq> []"
    and r: "\<forall>r\<in>set xs. 1 \<le> review.rating r \<and> review.rating r \<le> 5"
    and len: "length xs < 2 ^ 32"
  shows "1 \<le> number_divide
                (foldl (\<lambda>sum r. number_add sum (number_of_int (review.rating r))) 0 xs)
                (number_of_int (int (length xs)))"
    and "\<exists>n :: nat. 10 \<le> n \<and> n \<le> 50
           \<and> \<bar>of_nat n / 10 - of_int (sum_list (map review.rating xs)) / of_nat (length xs)\<bar>
               \<le> (1 / 20 :: rat)
           \<and> toFixed1
                (number_divide
                   (foldl (\<lambda>sum r. number_add sum (number_of_int (review.rating r))) 0 xs)
                   (number_of_int (int (length xs))))
               = [''0123456789'' ! (n div 10), CHR ''.'', ''0123456789'' ! (n mod 10)]"
proof -
  define mean :: rat
    where "mean = of_int (sum_list (map review.rating xs)) / of_nat (length xs)"
  define d where "d = number_divide
      (foldl (\<lambda>sum r. number_add sum (number_of_int (review.rating r))) 0 xs)
      (number_of_int (int (length xs)))"
  have rb: "\<forall>r\<in>set xs. \<bar>review.rating r\<bar> \<le> 5"
    using r by auto
  have "int (length xs) < 2 ^ 32"
    using len by (metis of_nat_less_iff of_nat_numeral of_nat_power)
  then have bn: "5 * int (length xs) \<le> 2 ^ 53" by simp
  have c0: "0 < length xs" using ne by simp
  have dm: "d = nearest_double mean"
    unfolding d_def mean_def by (rule number_mean [OF ne rb bn])
  have mb: "1 \<le> mean \<and> mean \<le> 5"
    unfolding mean_def by (rule mean_bounds [OF ne r])
  have db: "of_int 1 \<le> d \<and> d \<le> of_int 5"
    unfolding dm by (rule nearest_double_between) (use mb in simp_all)
  then have d1: "1 \<le> d" and d5: "d \<le> 5" by simp_all
  have "\<bar>d - mean\<bar> \<le> \<bar>mean\<bar> / 2 ^ 53"
    unfolding dm mean_def by (rule rounded_mean_error(1) [OF ne rb bn])
  also have "\<dots> \<le> 5 / 2 ^ 53"
    using mb by (simp add: divide_right_mono)
  finally have close: "\<bar>d - mean\<bar> \<le> 5 / 2 ^ 53" .
  from toFixed1_rounds [OF d1 d5] obtain n :: nat
    where n: "10 \<le> n" "n \<le> 50" "\<bar>of_nat n / 10 - d\<bar> \<le> 1 / 20"
      "toFixed1 d = [''0123456789'' ! (n div 10), CHR ''.'', ''0123456789'' ! (n mod 10)]"
    by blast
  have "\<bar>of_nat n / 10 - mean\<bar> \<le> 1 / 20"
    unfolding mean_def
    by (rule tenths_of_mean [OF c0 len _ n(3)]) (use close in \<open>simp add: mean_def\<close>)
  with n show "\<exists>n :: nat. 10 \<le> n \<and> n \<le> 50
           \<and> \<bar>of_nat n / 10 - of_int (sum_list (map review.rating xs)) / of_nat (length xs)\<bar>
               \<le> (1 / 20 :: rat)
           \<and> toFixed1
                (number_divide
                   (foldl (\<lambda>sum r. number_add sum (number_of_int (review.rating r))) 0 xs)
                   (number_of_int (int (length xs))))
               = [''0123456789'' ! (n div 10), CHR ''.'', ''0123456789'' ! (n mod 10)]"
    unfolding mean_def d_def by blast
  show "1 \<le> number_divide
                (foldl (\<lambda>sum r. number_add sum (number_of_int (review.rating r))) 0 xs)
                (number_of_int (int (length xs)))"
    using d1 unfolding d_def .
qed

text \<open>
  C8, as the code has it. On the catalogue card a book without reviews (aggregate
  \<open>(0, 0)\<close>) is shown as \<^verbatim>\<open>No ratings\<close>; the book page shows an empty list of reviews as
  \<^verbatim>\<open>0.0\<close>. For a non-empty array of reviews with ratings from 1 to 5 (an array has fewer
  than \<open>2\<^sup>3\<^sup>2\<close> elements), both show the average rounded to one decimal: a digit, a point
  and a digit that denote a number of tenths within \<open>1/20\<close> of the mean.
\<close>

theorem rating_text:
  "(\<forall>i < length bs.
      let matching = filter (\<lambda>r. book_id r = b_id (bs ! i)) rs;
          shown = BookCard_rating (Some (averageRating (booksWithRatings bs rs ! i)))
      in (matching = [] \<longrightarrow> shown = ''No ratings'')
         \<and> (matching \<noteq> [] \<and> (\<forall>r \<in> set matching. 1 \<le> review.rating r \<and> review.rating r \<le> 5)
              \<and> length matching < 2 ^ 32 \<longrightarrow>
              (\<exists>n :: nat. 10 \<le> n \<and> n \<le> 50
                 \<and> \<bar>of_nat n / 10
                      - of_int (sum_list (map review.rating matching)) / of_nat (length matching)\<bar>
                     \<le> (1 / 20 :: rat)
                 \<and> shown = [''0123456789'' ! (n div 10), CHR ''.'', ''0123456789'' ! (n mod 10)])))
   \<and> BookDetails_averageRating [] = ''0.0''
   \<and> (listed \<noteq> [] \<and> (\<forall>r \<in> set listed. 1 \<le> review.rating r \<and> review.rating r \<le> 5)
        \<and> length listed < 2 ^ 32 \<longrightarrow>
        (\<exists>n :: nat. 10 \<le> n \<and> n \<le> 50
           \<and> \<bar>of_nat n / 10
                - of_int (sum_list (map review.rating listed)) / of_nat (length listed)\<bar>
               \<le> (1 / 20 :: rat)
           \<and> BookDetails_averageRating listed
               = [''0123456789'' ! (n div 10), CHR ''.'', ''0123456789'' ! (n mod 10)]))"
proof (intro conjI allI impI)
  fix i assume i: "i < length bs"
  let ?m = "filter (\<lambda>r. book_id r = b_id (bs ! i)) rs"
  let ?mean = "(of_int (sum_list (map review.rating ?m)) :: rat) / of_nat (length ?m)"
  let ?d = "number_divide
              (foldl (\<lambda>sum r. number_add sum (number_of_int (review.rating r))) 0 ?m)
              (number_of_int (int (length ?m)))"
  have avg: "averageRating (booksWithRatings bs rs ! i) = (if ?m = [] then 0 else ?d)"
    by (simp add: booksWithRatings_nth [OF i] book.defs)
  have empty: "?m = [] \<longrightarrow>
      BookCard_rating (Some (averageRating (booksWithRatings bs rs ! i))) = ''No ratings''"
    by (simp add: avg BookCard_rating_def)
  have rated: "\<exists>n :: nat. 10 \<le> n \<and> n \<le> 50 \<and> \<bar>of_nat n / 10 - ?mean\<bar> \<le> (1 / 20 :: rat)
        \<and> BookCard_rating (Some (averageRating (booksWithRatings bs rs ! i)))
            = [''0123456789'' ! (n div 10), CHR ''.'', ''0123456789'' ! (n mod 10)]"
    if "?m \<noteq> [] \<and> (\<forall>r \<in> set ?m. 1 \<le> review.rating r \<and> review.rating r \<le> 5)
          \<and> length ?m < 2 ^ 32"
  proof -
    from that have ne: "?m \<noteq> []"
      and r: "\<forall>r \<in> set ?m. 1 \<le> review.rating r \<and> review.rating r \<le> 5"
      and len: "length ?m < 2 ^ 32"
      by blast+
    have "0 < ?d"
      using average_tenths(1) [OF ne r len] by linarith
    then have "BookCard_rating (Some ?d) = toFixed1 ?d"
      by (rule BookCard_rating_positive)
    moreover have "averageRating (booksWithRatings bs rs ! i) = ?d"
      using ne avg by presburger
    ultimately have "BookCard_rating (Some (averageRating (booksWithRatings bs rs ! i)))
        = toFixed1 ?d"
      by presburger
    with average_tenths(2) [OF ne r len] show ?thesis by presburger
  qed
  show "let matching = ?m;
            shown = BookCard_rating (Some (averageRating (booksWithRatings bs rs ! i)))
      in (matching = [] \<longrightarrow> shown = ''No ratings'')
         \<and> (matching \<noteq> [] \<and> (\<forall>r \<in> set matching. 1 \<le> review.rating r \<and> review.rating r \<le> 5)
              \<and> length matching < 2 ^ 32 \<longrightarrow>
              (\<exists>n :: nat. 10 \<le> n \<and> n \<le> 50
                 \<and> \<bar>of_nat n / 10
                      - of_int (sum_list (map review.rating matching)) / of_nat (length matching)\<bar>
                     \<le> (1 / 20 :: rat)
                 \<and> shown = [''0123456789'' ! (n div 10), CHR ''.'', ''0123456789'' ! (n mod 10)]))"
    unfolding Let_def using empty rated by blast
next
  show "BookDetails_averageRating [] = ''0.0''"
    by (simp add: BookDetails_averageRating_def)
next
  assume h: "listed \<noteq> [] \<and> (\<forall>r \<in> set listed. 1 \<le> review.rating r \<and> review.rating r \<le> 5)
        \<and> length listed < 2 ^ 32"
  let ?mean = "(of_int (sum_list (map review.rating listed)) :: rat) / of_nat (length listed)"
  from h have ne: "listed \<noteq> []"
    and r: "\<forall>r \<in> set listed. 1 \<le> review.rating r \<and> review.rating r \<le> 5"
    and len: "length listed < 2 ^ 32"
    by blast+
  have "BookDetails_averageRating listed
          = toFixed1
              (number_divide
                 (foldl (\<lambda>sum r. number_add sum (number_of_int (review.rating r))) 0 listed)
                 (number_of_int (int (length listed))))"
    using ne by (simp add: BookDetails_averageRating_def)
  with average_tenths(2) [OF ne r len]
  show "\<exists>n :: nat. 10 \<le> n \<and> n \<le> 50 \<and> \<bar>of_nat n / 10 - ?mean\<bar> \<le> (1 / 20 :: rat)
           \<and> BookDetails_averageRating listed
               = [''0123456789'' ! (n div 10), CHR ''.'', ''0123456789'' ! (n mod 10)]"
    by presburger
qed

lemma sample_rated:
  "filter (\<lambda>r. book_id r = b_id (sample_books ! 0)) sample_reviews \<noteq> []
   \<and> (\<forall>r \<in> set (filter (\<lambda>r. book_id r = b_id (sample_books ! 0)) sample_reviews).
         1 \<le> review.rating r \<and> review.rating r \<le> 5)"
  "take 2 sample_reviews \<noteq> []
   \<and> (\<forall>r \<in> set (take 2 sample_reviews). 1 \<le> review.rating r \<and> review.rating r \<le> 5)"
  "length (filter (\<lambda>r. book_id r = b_id (sample_books ! 0)) sample_reviews) = 2"
  "length (take 2 sample_reviews) = 2"
  by code_simp+

lemma sample_matching:
  "filter (\<lambda>r. book_id r = b_id (sample_books ! 1)) sample_reviews = []"
  "filter (\<lambda>r. book_id r = b_id (sample_books ! 0)) sample_reviews \<noteq> []
   \<and> (\<forall>r \<in> set (filter (\<lambda>r. book_id r = b_id (sample_books ! 0)) sample_reviews).
         1 \<le> review.rating r \<and> review.rating r \<le> 5)
   \<and> length (filter (\<lambda>r. book_id r = b_id (sample_books ! 0)) sample_reviews) < 2 ^ 32"
  "take 2 sample_reviews \<noteq> []
   \<and> (\<forall>r \<in> set (take 2 sample_reviews). 1 \<le> review.rating r \<and> review.rating r \<le> 5)
   \<and> length (take 2 sample_reviews) < 2 ^ 32"
proof -
  show "filter (\<lambda>r. book_id r = b_id (sample_books ! 1)) sample_reviews = []"
    by code_simp
  show "filter (\<lambda>r. book_id r = b_id (sample_books ! 0)) sample_reviews \<noteq> []
   \<and> (\<forall>r \<in> set (filter (\<lambda>r. book_id r = b_id (sample_books ! 0)) sample_reviews).
         1 \<le> review.rating r \<and> review.rating r \<le> 5)
   \<and> length (filter (\<lambda>r. book_id r = b_id (sample_books ! 0)) sample_reviews) < 2 ^ 32"
    using sample_rated(1) by (simp only: sample_rated(3)) simp
  show "take 2 sample_reviews \<noteq> []
   \<and> (\<forall>r \<in> set (take 2 sample_reviews). 1 \<le> review.rating r \<and> review.rating r \<le> 5)
   \<and> length (take 2 sample_reviews) < 2 ^ 32"
    using sample_rated(2) by (simp only: sample_rated(4)) simp
qed

lemma sample_ratings:
  "map review.rating (filter (\<lambda>r. book_id r = b_id (sample_books ! 0)) sample_reviews)
     = [4, 5]"
  "map review.rating (take 2 sample_reviews) = [4, 5]"
  by code_simp+

theorem rating_text_witness:
  "(1 :: nat) < length sample_books
   \<and> filter (\<lambda>r. book_id r = b_id (sample_books ! 1)) sample_reviews = []
   \<and> BookCard_rating (Some (averageRating (booksWithRatings sample_books sample_reviews ! 1)))
       = ''No ratings''
   \<and> map review.rating (filter (\<lambda>r. book_id r = b_id (sample_books ! 0)) sample_reviews)
       = [4, 5]
   \<and> (\<exists>n :: nat. 10 \<le> n \<and> n \<le> 50
         \<and> BookCard_rating (Some (averageRating (booksWithRatings sample_books sample_reviews ! 0)))
             = [''0123456789'' ! (n div 10), CHR ''.'', ''0123456789'' ! (n mod 10)])
   \<and> map review.rating (take 2 sample_reviews) = [4, 5]
   \<and> (\<exists>n :: nat. 10 \<le> n \<and> n \<le> 50
         \<and> BookDetails_averageRating (take 2 sample_reviews)
             = [''0123456789'' ! (n div 10), CHR ''.'', ''0123456789'' ! (n mod 10)])"
proof -
  note T = rating_text [of sample_books sample_reviews "take 2 sample_reviews"]
  have len: "(1 :: nat) < length sample_books" "(0 :: nat) < length sample_books"
    by (simp_all add: sample_books_def)
  note all = conjunct1 [OF T, unfolded Let_def]
  have one: "BookCard_rating (Some (averageRating (booksWithRatings sample_books sample_reviews ! 1)))
       = ''No ratings''"
    using all len(1) sample_matching(1) by blast
  have zero: "\<exists>n :: nat. 10 \<le> n \<and> n \<le> 50
         \<and> BookCard_rating (Some (averageRating (booksWithRatings sample_books sample_reviews ! 0)))
             = [''0123456789'' ! (n div 10), CHR ''.'', ''0123456789'' ! (n mod 10)]"
    using all len(2) sample_matching(2) by blast
  have listed: "\<exists>n :: nat. 10 \<le> n \<and> n \<le> 50
         \<and> BookDetails_averageRating (take 2 sample_reviews)
             = [''0123456789'' ! (n div 10), CHR ''.'', ''0123456789'' ! (n mod 10)]"
    using conjunct2 [OF conjunct2 [OF T]] sample_matching(3) by blast
  show ?thesis
    using len(1) sample_matching(1) sample_ratings one zero listed by blast
qed

text \<open>
  The book page does show \<^verbatim>\<open>0.0\<close> for a book without reviews, where C8 asks for
  \<^verbatim>\<open>No ratings\<close> in every presentation.
\<close>

theorem book_page_empty_reviews_counterexample:
  "BookDetails_averageRating [] = ''0.0'' \<and> BookDetails_averageRating [] \<noteq> ''No ratings''"
  by (simp add: BookDetails_averageRating_def)


section \<open>Properties of the review form\<close>

lemma reviewSchema_parse_Inr_iff:
  "(\<exists>v. reviewSchema_parse ratingInput reviewTextInput = Inr v)
     = ((\<exists>n. ratingInput = Some n \<and> 1 \<le> n \<and> n \<le> 5)
        \<and> 10 \<le> length (trim reviewTextInput) \<and> length (trim reviewTextInput) \<le> 1000)"
  by (cases ratingInput) (auto simp: reviewSchema_parse_def Let_def)

text \<open>
  C5, as the code has it. \<^verbatim>\<open>handleSubmitReview\<close> first returns for an anonymous viewer,
  with the toast \<^verbatim>\<open>Authentication Required\<close> and no validation. For a signed-in viewer
  the draft is valid exactly when the parsed rating lies in 1 to 5 and the length of the
  trimmed text lies in 10 to 1000, both bounds included; a valid draft issues one update
  or insert. An invalid draft ends with the toast \<^verbatim>\<open>Validation Error\<close>, no store
  request, and the state as it was (rating, text and edited review kept,
  \<^verbatim>\<open>isSubmitting\<close> cleared).
\<close>

theorem submit_validation:
  "(user st = None \<longrightarrow>
      handleSubmitReview_call st
        = (st, [Toast ''Authentication Required'' ''Please log in to submit a review'',
                Navigate ''/auth''], []))
   \<and> (user st \<noteq> None
        \<and> (\<exists>n. parseInt (rating st) = Some n \<and> 1 \<le> n \<and> n \<le> 5)
        \<and> 10 \<le> length (trim (reviewText st)) \<and> length (trim (reviewText st)) \<le> 1000 \<longrightarrow>
      (\<exists>request. is_submit request
         \<and> handleSubmitReview_call st = (st\<lparr>isSubmitting := True\<rparr>, [], [request])))
   \<and> (user st \<noteq> None
        \<and> \<not> ((\<exists>n. parseInt (rating st) = Some n \<and> 1 \<le> n \<and> n \<le> 5)
              \<and> 10 \<le> length (trim (reviewText st)) \<and> length (trim (reviewText st)) \<le> 1000) \<longrightarrow>
      (\<exists>message.
         handleSubmitReview_call st
           = (st\<lparr>isSubmitting := False\<rparr>, [Toast ''Validation Error'' message], [])))"
proof (intro conjI impI)
  assume "user st = None"
  then show "handleSubmitReview_call st
        = (st, [Toast ''Authentication Required'' ''Please log in to submit a review'',
                Navigate ''/auth''], [])"
    by (simp add: handleSubmitReview_call_def)
next
  assume h: "user st \<noteq> None
        \<and> (\<exists>n. parseInt (rating st) = Some n \<and> 1 \<le> n \<and> n \<le> 5)
        \<and> 10 \<le> length (trim (reviewText st)) \<and> length (trim (reviewText st)) \<le> 1000"
  then obtain uid where uid: "user st = Some uid" by auto
  from h obtain v where "reviewSchema_parse (parseInt (rating st)) (reviewText st) = Inr v"
    using reviewSchema_parse_Inr_iff [of "parseInt (rating st)" "reviewText st"] by blast
  then obtain n t where v: "reviewSchema_parse (parseInt (rating st)) (reviewText st) = Inr (n, t)"
    by (cases v) auto
  show "\<exists>request. is_submit request
         \<and> handleSubmitReview_call st = (st\<lparr>isSubmitting := True\<rparr>, [], [request])"
  proof (cases "truthy (editingReview st)")
    case False
    with uid v have "handleSubmitReview_call st
        = (st\<lparr>isSubmitting := True\<rparr>, [], [InsertReview (param_id st) uid n t])"
      by (simp add: handleSubmitReview_call_def)
    then show ?thesis by (intro exI [of _ "InsertReview (param_id st) uid n t"]) simp
  next
    case True
    with uid v have "handleSubmitReview_call st
        = (st\<lparr>isSubmitting := True\<rparr>, [], [UpdateReview (the (editingReview st)) n t])"
      by (simp add: handleSubmitReview_call_def)
    then show ?thesis by (intro exI [of _ "UpdateReview (the (editingReview st)) n t"]) simp
  qed
next
  assume h: "user st \<noteq> None
        \<and> \<not> ((\<exists>n. parseInt (rating st) = Some n \<and> 1 \<le> n \<and> n \<le> 5)
              \<and> 10 \<le> length (trim (reviewText st)) \<and> length (trim (reviewText st)) \<le> 1000)"
  then obtain uid where uid: "user st = Some uid" by auto
  from h have "\<not> (\<exists>v. reviewSchema_parse (parseInt (rating st)) (reviewText st) = Inr v)"
    using reviewSchema_parse_Inr_iff [of "parseInt (rating st)" "reviewText st"] by blast
  then obtain issues where "reviewSchema_parse (parseInt (rating st)) (reviewText st) = Inl issues"
    by (cases "reviewSchema_parse (parseInt (rating st)) (reviewText st)") auto
  with uid have "handleSubmitReview_call st
           = (st\<lparr>isSubmitting := False\<rparr>, [Toast ''Validation Error'' (hd issues)], [])"
    by (simp add: handleSubmitReview_call_def)
  then show "\<exists>message.
         handleSubmitReview_call st
           = (st\<lparr>isSubmitting := False\<rparr>, [Toast ''Validation Error'' message], [])"
    by blast
qed

lemma sample_page_fields:
  "user (sample_page u r t) = u"
  "BookDetails_state.rating (sample_page u r t) = r"
  "reviewText (sample_page u r t) = t"
  by (simp_all add: sample_page_def)

lemma sample_drafts:
  "parseInt ''5'' = Some 5"
  "trim ''short'' = ''short''"
  "trim ''     short     '' = ''short''"
  "trim ''A great book indeed'' = ''A great book indeed''"
  "trim ([CHR 0xA0, CHR 0x09] @ ''short'' @ [CHR 0x0A, CHR 0xA0]) = ''short''"
  by code_simp+

theorem submit_validation_witness:
  "user (sample_page None ''5'' ''short'') = None
   \<and> handleSubmitReview_call (sample_page None ''5'' ''short'')
       = (sample_page None ''5'' ''short'',
          [Toast ''Authentication Required'' ''Please log in to submit a review'',
           Navigate ''/auth''], [])
   \<and> (user (sample_page (Some ''u1'') ''5'' ''A great book indeed'') \<noteq> None
       \<and> parseInt (BookDetails_state.rating (sample_page (Some ''u1'') ''5'' ''A great book indeed''))
           = Some 5
       \<and> length (trim (reviewText (sample_page (Some ''u1'') ''5'' ''A great book indeed''))) = 19)
   \<and> (\<exists>request. is_submit request
         \<and> handleSubmitReview_call (sample_page (Some ''u1'') ''5'' ''A great book indeed'')
             = ((sample_page (Some ''u1'') ''5'' ''A great book indeed'')\<lparr>isSubmitting := True\<rparr>,
                [], [request]))
   \<and> (user (sample_page (Some ''u1'') ''5'' ''short'') \<noteq> None
       \<and> length (trim (reviewText (sample_page (Some ''u1'') ''5'' ''short''))) = 5)
   \<and> (\<exists>message.
         handleSubmitReview_call (sample_page (Some ''u1'') ''5'' ''short'')
           = ((sample_page (Some ''u1'') ''5'' ''short'')\<lparr>isSubmitting := False\<rparr>,
              [Toast ''Validation Error'' message], []))"
proof -
  have a: "user (sample_page None ''5'' ''short'') = None"
    by (simp add: sample_page_fields)
  have b: "user (sample_page (Some ''u1'') ''5'' ''A great book indeed'') \<noteq> None
       \<and> parseInt (BookDetails_state.rating (sample_page (Some ''u1'') ''5'' ''A great book indeed''))
           = Some 5
       \<and> length (trim (reviewText (sample_page (Some ''u1'') ''5'' ''A great book indeed''))) = 19"
    by (simp add: sample_page_fields sample_drafts)
  have c: "user (sample_page (Some ''u1'') ''5'' ''short'') \<noteq> None
       \<and> length (trim (reviewText (sample_page (Some ''u1'') ''5'' ''short''))) = 5"
    by (simp add: sample_page_fields sample_drafts)
  note A = submit_validation [of "sample_page None ''5'' ''short''"]
  note B = submit_validation [of "sample_page (Some ''u1'') ''5'' ''A great book indeed''"]
  note C = submit_validation [of "sample_page (Some ''u1'') ''5'' ''short''"]
  have a': "handleSubmitReview_call (sample_page None ''5'' ''short'')
       = (sample_page None ''5'' ''short'',
          [Toast ''Authentication Required'' ''Please log in to submit a review'',
           Navigate ''/auth''], [])"
    using A a by blast
  have b': "\<exists>request. is_submit request
         \<and> handleSubmitReview_call (sample_page (Some ''u1'') ''5'' ''A great book indeed'')
             = ((sample_page (Some ''u1'') ''5'' ''A great book indeed'')\<lparr>isSubmitting := True\<rparr>,
                [], [request])"
    using conjunct1 [OF conjunct2 [OF B]] b by simp
  have c': "\<exists>message.
         handleSubmitReview_call (sample_page (Some ''u1'') ''5'' ''short'')
           = ((sample_page (Some ''u1'') ''5'' ''short'')\<lparr>isSubmitting := False\<rparr>,
              [Toast ''Validation Error'' message], [])"
    using conjunct2 [OF conjunct2 [OF C]] c by simp
  show ?thesis
    using a a' b b' c c' by blast
qed

lemma sample_short_session_runs:
  "run sample_short_session (mount ''b1'')
     = Some \<lparr>page = sample_page (Some ''u1'') ''5'' ''     short     '', inflight = []\<rparr>"
  "submitEnabled (sample_page (Some ''u1'') ''5'' ''     short     '')"
  by code_simp+

text \<open>
  A signed-in viewer opens the page of a book and types a text of 15 characters, of
  which 5 remain after trimming; the rating is the 5 of the select. Submit is enabled,
  and the draft is refused with a validation error although its rating and the length of
  its text are in the ranges of C5.
\<close>

theorem submit_validation_counterexample:
  "run sample_short_session (mount ''b1'')
     = Some \<lparr>page = sample_page (Some ''u1'') ''5'' ''     short     '', inflight = []\<rparr>
   \<and> submitEnabled (sample_page (Some ''u1'') ''5'' ''     short     '')
   \<and> length (reviewText (sample_page (Some ''u1'') ''5'' ''     short     '')) = 15
   \<and> parseInt (BookDetails_state.rating (sample_page (Some ''u1'') ''5'' ''     short     ''))
       = Some 5
   \<and> handleSubmitReview_call (sample_page (Some ''u1'') ''5'' ''     short     '')
       = (sample_page (Some ''u1'') ''5'' ''     short     '',
          [Toast ''Validation Error'' ''Review must be at least 10 characters''], [])"
  by (simp add: sample_short_session_runs)
     (simp add: sample_page_def sample_drafts handleSubmitReview_call_def
        reviewSchema_parse_def)


section \<open>Properties of the requests in flight\<close>
















section \<open>Properties of the deletion of a review\<close>

lemma handleDeleteReview_run_eq:
  "handleDeleteReview_run rows reviewId st =
     (filter (\<lambda>r. \<not> (r_id r = reviewId \<and> user st = Some (user_id r))) rows,
      st\<lparr>isLoading := True,
         reviews := store_select_reviews (param_id st)
                      (filter (\<lambda>r. \<not> (r_id r = reviewId \<and> user st = Some (user_id r))) rows),
         isLoading := False\<rparr>,
      [Toast ''Success'' ''Review deleted successfully''])"
  by (simp add: handleDeleteReview_run_def handleDeleteReview_call_def store_delete_review_def
        handleDeleteReview_resume_def fetchBookDetails_call_def)

text \<open>
  C7, as the code has it. The Delete button of a review is rendered only for the
  signed-in user who wrote it; \<^verbatim>\<open>handleDeleteReview\<close> itself compares nothing and always
  issues the request. An error of the store is shown as \<^verbatim>\<open>Failed to delete review\<close>,
  whatever its cause. Against the row-level policy of the store, the author's call
  removes the review; the call of anyone else removes nothing and raises no error, so
  the handler reports success and the review remains listed.
\<close>

theorem delete_review_authorization:
  "(reviewButtonsShown st r \<longrightarrow> user st = Some (user_id r))
   \<and> handleDeleteReview_call (r_id r) st = (st, [], [DeleteReview (r_id r)])
   \<and> handleDeleteReview_resume (Failed message) st
       = (st, [Toast ''Error'' ''Failed to delete review''], [])
   \<and> (r \<in> set rows \<and> user st = Some (user_id r) \<longrightarrow>
        r \<notin> set (fst (handleDeleteReview_run rows (r_id r) st)))
   \<and> (r \<in> set rows \<and> user st \<noteq> Some (user_id r) \<longrightarrow>
        r \<in> set (fst (handleDeleteReview_run rows (r_id r) st))
        \<and> snd (snd (handleDeleteReview_run rows (r_id r) st))
            = [Toast ''Success'' ''Review deleted successfully'']
        \<and> (book_id r = param_id st \<longrightarrow>
             r \<in> set (reviews (fst (snd (handleDeleteReview_run rows (r_id r) st))))))"
  by (simp add: handleDeleteReview_run_eq reviewButtonsShown_def handleDeleteReview_call_def
        handleDeleteReview_resume_def store_select_reviews_def)

lemma sample_delete_facts:
  "sample_reviews ! 1 \<in> set sample_reviews"
  "user (sample_page (Some ''u1'') ''5'' []) \<noteq> Some (user_id (sample_reviews ! 1))"
  "book_id (sample_reviews ! 1) = param_id (sample_page (Some ''u1'') ''5'' [])"
  "r_id (sample_reviews ! 1) = ''r2''"
  "sample_reviews ! 0 \<in> set sample_reviews"
  "user (sample_page (Some ''u1'') ''5'' []) = Some (user_id (sample_reviews ! 0))"
  "r_id (sample_reviews ! 0) = ''r1''"
  "reviewButtonsShown (sample_page (Some ''u1'') ''5'' []) (sample_reviews ! 0)"
  by code_simp+

theorem delete_review_authorization_witness:
  "reviewButtonsShown (sample_page (Some ''u1'') ''5'' []) (sample_reviews ! 0)
   \<and> (sample_reviews ! 0 \<in> set sample_reviews
       \<and> user (sample_page (Some ''u1'') ''5'' []) = Some (user_id (sample_reviews ! 0)))
   \<and> sample_reviews ! 0
       \<notin> set (fst (handleDeleteReview_run sample_reviews ''r1'' (sample_page (Some ''u1'') ''5'' [])))
   \<and> (sample_reviews ! 1 \<in> set sample_reviews
       \<and> user (sample_page (Some ''u1'') ''5'' []) \<noteq> Some (user_id (sample_reviews ! 1)))
   \<and> sample_reviews ! 1
       \<in> set (fst (handleDeleteReview_run sample_reviews ''r2'' (sample_page (Some ''u1'') ''5'' [])))
   \<and> snd (snd (handleDeleteReview_run sample_reviews ''r2'' (sample_page (Some ''u1'') ''5'' [])))
       = [Toast ''Success'' ''Review deleted successfully'']
   \<and> book_id (sample_reviews ! 1) = param_id (sample_page (Some ''u1'') ''5'' [])
   \<and> sample_reviews ! 1
       \<in> set (reviews (fst (snd (handleDeleteReview_run sample_reviews ''r2''
                                   (sample_page (Some ''u1'') ''5'' [])))))"
proof -
  note own = delete_review_authorization
    [of "sample_page (Some ''u1'') ''5'' []" "sample_reviews ! 0" _ sample_reviews,
     unfolded sample_delete_facts(7)]
  note other = delete_review_authorization
    [of "sample_page (Some ''u1'') ''5'' []" "sample_reviews ! 1" _ sample_reviews,
     unfolded sample_delete_facts(4)]
  show ?thesis
    using own other sample_delete_facts(1,2,3,5,6,8) by blast
qed

text \<open>
  Identity \<open>u1\<close> calls the handler on the review \<open>r2\<close> of \<open>u2\<close>: the request goes to the
  store, the toast is \<^verbatim>\<open>Review deleted successfully\<close>, and the review is still listed.
  The operation does not fail, with an authorization error or otherwise.
\<close>

theorem delete_by_other_counterexample:
  "user (sample_page (Some ''u1'') ''5'' []) = Some ''u1''
   \<and> user_id (sample_reviews ! 1) = ''u2'' \<and> r_id (sample_reviews ! 1) = ''r2''
   \<and> handleDeleteReview_call ''r2'' (sample_page (Some ''u1'') ''5'' [])
       = (sample_page (Some ''u1'') ''5'' [], [], [DeleteReview ''r2''])
   \<and> snd (snd (handleDeleteReview_run sample_reviews ''r2'' (sample_page (Some ''u1'') ''5'' [])))
       = [Toast ''Success'' ''Review deleted successfully'']
   \<and> sample_reviews ! 1
       \<in> set (reviews (fst (snd (handleDeleteReview_run sample_reviews ''r2''
                                   (sample_page (Some ''u1'') ''5'' [])))))"
  by code_simp

end
